theory Spec2Isabelle
  imports Complex_Main "HOL-Library.Multiset" "HOL-Library.Word"
    "HOL-Library.Char_ord" "HOL-Library.List_Lexorder"
begin

section \<open>Data model\<close>

text \<open>
  JavaScript numbers that hold counts are modelled as \<open>nat\<close>; scores and thresholds, which
  the source computes as quotients of counts, are modelled as exact rationals.  A
  \<open>Set<string>\<close> is an insertion-ordered collection without duplicates: it is modelled as
  a list whose elements are pairwise distinct (\<open>distinct\<close>), \<open>s.size\<close> is \<open>length\<close> and
  \<open>s.has(x)\<close> is membership in \<open>set s\<close>.  Strings are compared by \<open><\<close> of a linear order
  (the lexicographic order on character lists for \<open>string\<close>).

  Where the modules are found in the source tree: the Jaccard functions in
  \<open>lib/pypi-stats.ts\<close> (lines 156 to 209); the engine in \<open>lib/similar.ts\<close> (lines 1 to
  1081) and the peer groups of \<open>lib/seeds.ts\<close> further down in the same file (lines 1463 to
  1546); \<open>lib/jaccardBitset.ts\<close> and \<open>lib/config.ts\<close> under their own names; \<open>lib/pypi.ts\<close>
  and \<open>lib/bitsetCache.ts\<close> in \<open>README.md\<close> (lines 180 to 400 and 893 to 974); and the
  route handler of the similarity endpoint in \<open>app/api/meta/[pkg]/route.ts\<close> (lines 70 to
  169).
\<close>

definition Set_add :: "'a list \<Rightarrow> 'a \<Rightarrow> 'a list" where
  "Set_add s x = (if x \<in> set s then s else s @ [x])"

definition new_Set :: "'a list \<Rightarrow> 'a list" where
  "new_Set xs = foldl Set_add [] xs"

section \<open>lib/jaccard.ts\<close>

text \<open>The two-pointer loop of \<open>jaccardSimilarityOptimized\<close>, on the loop variables
  \<open>i\<close>, \<open>j\<close> and \<open>shared\<close>.\<close>

function twoPointer :: "('a::linorder) list \<Rightarrow> 'a list \<Rightarrow> nat \<Rightarrow> nat \<Rightarrow> nat \<Rightarrow> nat" where
  "twoPointer arrA arrB i j shared =
     (if i < length arrA \<and> j < length arrB then
        (if arrA ! i = arrB ! j then twoPointer arrA arrB (i + 1) (j + 1) (shared + 1)
         else if arrA ! i < arrB ! j then twoPointer arrA arrB (i + 1) j shared
         else twoPointer arrA arrB i (j + 1) shared)
      else shared)"
  by pat_completeness auto
termination
  by (relation "measure (\<lambda>(arrA, arrB, i, j, shared). (length arrA - i) + (length arrB - j))") auto

declare twoPointer.simps [simp del]

record JaccardResult =
  score :: rat
  shared :: nat
  unionSize :: nat

definition jaccardSimilarityOptimized :: "('a::linorder) list \<Rightarrow> 'a list \<Rightarrow> JaccardResult" where
  "jaccardSimilarityOptimized a b =
     (let arrA = sort a;
          arrB = sort b;
          shared = twoPointer arrA arrB 0 0 0;
          unionSize = length arrA + length arrB - shared;
          score = (if unionSize > 0 then of_nat shared / of_nat unionSize else 0)
      in \<lparr> score = score, shared = shared, unionSize = unionSize \<rparr>)"

definition jaccardSimilarityStandard :: "'a list \<Rightarrow> 'a list \<Rightarrow> JaccardResult" where
  "jaccardSimilarityStandard a b =
     (let shared = fold (\<lambda>x shared. if x \<in> set b then shared + 1 else shared) a 0;
          unionSize = length a + length b - shared;
          score = (if unionSize > 0 then of_nat shared / of_nat unionSize else 0)
      in \<lparr> score = score, shared = shared, unionSize = unionSize \<rparr>)"

definition jaccardSimilarity :: "('a::linorder) list \<Rightarrow> 'a list \<Rightarrow> JaccardResult" where
  "jaccardSimilarity a b =
     (let THRESHOLD = 100 in
      if length a < THRESHOLD \<and> length b < THRESHOLD then jaccardSimilarityStandard a b
      else jaccardSimilarityOptimized a b)"

section \<open>lib/similar.ts: the size-only pre-filter\<close>

definition canMeetThreshold :: "nat \<Rightarrow> nat \<Rightarrow> rat \<Rightarrow> bool" where
  "canMeetThreshold candidateSize baseSize minJaccard =
     (if candidateSize = 0 \<or> baseSize = 0 then False
      else
        (let maxPossibleIntersection = min candidateSize baseSize;
             minPossibleUnion = max candidateSize baseSize;
             maxPossibleJaccard = of_nat maxPossibleIntersection / of_nat minPossibleUnion
         in maxPossibleJaccard \<ge> minJaccard))"

section \<open>lib/similar.ts: the bounded top-K selector\<close>

text \<open>
  The selector of \<open>computeSimilarOnDemand\<close> is the array \<open>heap\<close> with the closures
  \<open>heapSwap\<close>, \<open>heapSiftUp\<close>, \<open>heapSiftDown\<close> and \<open>heapPushBounded\<close>; the array is passed
  and returned explicitly, and so is the captured \<open>limit\<close>, a count.  \<open>siftDownChoice\<close> is
  the index \<open>m\<close> that one iteration of the loop of \<open>heapSiftDown\<close> computes.
\<close>

record SimilarItem =
  name :: string
  jaccard :: rat
  sharedDependents :: nat

text \<open>The object literal \<open>{ name, jaccard, sharedDependents }\<close>.\<close>

definition mkItem :: "string \<Rightarrow> rat \<Rightarrow> nat \<Rightarrow> SimilarItem" where
  "mkItem n j s = \<lparr> name = n, jaccard = j, sharedDependents = s \<rparr>"

definition heapSwap :: "SimilarItem list \<Rightarrow> nat \<Rightarrow> nat \<Rightarrow> SimilarItem list" where
  "heapSwap heap i j = (let t = heap ! i in (heap[i := heap ! j])[j := t])"

function heapSiftUp :: "SimilarItem list \<Rightarrow> nat \<Rightarrow> SimilarItem list" where
  "heapSiftUp heap i =
     (if i > 0 then
        (let p = (i - 1) div 2 in
         if jaccard (heap ! p) \<le> jaccard (heap ! i) then heap
         else heapSiftUp (heapSwap heap i p) p)
      else heap)"
  by pat_completeness auto
termination
  by (relation "measure (\<lambda>(heap, i). i)") auto

definition siftDownChoice :: "SimilarItem list \<Rightarrow> nat \<Rightarrow> nat" where
  "siftDownChoice heap i =
     (let n = length heap;
          l = 2 * i + 1;
          r = l + 1;
          m = i;
          m = (if l < n \<and> jaccard (heap ! l) < jaccard (heap ! m) then l else m);
          m = (if r < n \<and> jaccard (heap ! r) < jaccard (heap ! m) then r else m)
      in m)"

function heapSiftDown :: "SimilarItem list \<Rightarrow> nat \<Rightarrow> SimilarItem list" where
  "heapSiftDown heap i =
     (let m = siftDownChoice heap i in
      if m = i then heap else heapSiftDown (heapSwap heap i m) m)"
  by pat_completeness auto
termination
proof (relation "measure (\<lambda>(heap, i). length heap - i)")
  show "wf (measure (\<lambda>(heap, i). length heap - i))" by simp
next
  fix heap :: "SimilarItem list" and i m
  assume "m = siftDownChoice heap i" "m \<noteq> i"
  then have "i < m \<and> m < length heap"
    by (auto simp: siftDownChoice_def Let_def split: if_splits)
  then show "((heapSwap heap i m, m), heap, i) \<in> measure (\<lambda>(heap, i). length heap - i)"
    by (auto simp: heapSwap_def Let_def)
qed

declare heapSiftUp.simps [simp del] heapSiftDown.simps [simp del]

definition heapPushBounded :: "nat \<Rightarrow> SimilarItem list \<Rightarrow> SimilarItem \<Rightarrow> SimilarItem list" where
  "heapPushBounded limit heap item =
     (if length heap < limit then
        (let heap = heap @ [item] in heapSiftUp heap (length heap - 1))
      else if limit \<le> 0 then heap
      else if jaccard (heap ! 0) \<ge> jaccard item then heap
      else heapSiftDown (heap[0 := item]) 0)"


text \<open>The binary-heap order on the array and the two loop invariants of the sift loops.\<close>

definition par :: "nat \<Rightarrow> nat" where
  "par j = (j - 1) div 2"




section \<open>The similarity and co-occurrence engine\<close>

subsection \<open>Strings\<close>

text \<open>\<open>String.prototype.toLowerCase\<close> on the ASCII letters; package names are ASCII.\<close>

definition lowerChar :: "char \<Rightarrow> char" where
  "lowerChar c =
     (case map_of (zip ''ABCDEFGHIJKLMNOPQRSTUVWXYZ'' ''abcdefghijklmnopqrstuvwxyz'') c of
        Some d \<Rightarrow> d
      | None \<Rightarrow> c)"

definition toLowerCase :: "string \<Rightarrow> string" where
  "toLowerCase s = map lowerChar s"

definition normalizePackageName :: "string \<Rightarrow> string" where
  "normalizePackageName n =
     toLowerCase (map (\<lambda>c. if c \<in> set ''-_.'' then CHR ''-'' else c) (toLowerCase n))"

fun startsWith :: "string \<Rightarrow> string \<Rightarrow> bool" where
  "startsWith s [] = True"
| "startsWith [] (c # cs) = False"
| "startsWith (d # ds) (c # cs) = (d = c \<and> startsWith ds cs)"

fun str_includes :: "string \<Rightarrow> string \<Rightarrow> bool" where
  "str_includes [] sub = (sub = [])"
| "str_includes (c # cs) sub = (startsWith (c # cs) sub \<or> str_includes cs sub)"

text \<open>\<open>s.split(/[-_.\/]/)[0] || s\<close>: the first segment, or the whole string when it is empty.\<close>

definition mainNameOf :: "string \<Rightarrow> string" where
  "mainNameOf s =
     (let nameParts0 = takeWhile (\<lambda>c. c \<notin> set ''-_./'') s
      in if nameParts0 = [] then s else nameParts0)"

text \<open>\<open>Number(x.toFixed(6))\<close> for a non-negative \<open>x\<close>: the nearest multiple of \<open>10^-6\<close>,
  the larger one at a tie.\<close>

definition toFixed6 :: "rat \<Rightarrow> rat" where
  "toFixed6 x = of_int \<lfloor>x * 1000000 + 1 / 2\<rfloor> / 1000000"


subsection \<open>Arrays and maps\<close>

text \<open>
  \<open>Array.prototype.sort(cmp)\<close> is stable; for a comparator that is a total preorder its
  result is the stable insertion sort below, which places \<open>x\<close> before the first \<open>y\<close> with
  \<open>cmp x y \<le> 0\<close>.
\<close>

fun insort_cmp :: "('a \<Rightarrow> 'a \<Rightarrow> rat) \<Rightarrow> 'a \<Rightarrow> 'a list \<Rightarrow> 'a list" where
  "insort_cmp cmp x [] = [x]"
| "insort_cmp cmp x (y # ys) = (if cmp x y \<le> 0 then x # y # ys else y # insort_cmp cmp x ys)"

definition Array_sort :: "('a \<Rightarrow> 'a \<Rightarrow> rat) \<Rightarrow> 'a list \<Rightarrow> 'a list" where
  "Array_sort cmp xs = foldr (insort_cmp cmp) xs []"

text \<open>A \<open>Map\<close> keeps its keys in insertion order; \<open>set\<close> on a present key keeps its place.\<close>

fun Map_set :: "('k \<times> 'v) list \<Rightarrow> 'k \<Rightarrow> 'v \<Rightarrow> ('k \<times> 'v) list" where
  "Map_set [] k v = [(k, v)]"
| "Map_set (p # ps) k v = (if fst p = k then (k, v) # ps else p # Map_set ps k v)"

definition Map_get :: "('k \<times> 'v) list \<Rightarrow> 'k \<Rightarrow> 'v option" where
  "Map_get m k = map_of m k"

subsection \<open>lib/config.ts, with no environment overrides\<close>

definition CANDIDATES_MULTIPLIER_PER_LIMIT :: nat where "CANDIDATES_MULTIPLIER_PER_LIMIT = 15"
definition MAX_PACKAGES_TO_CHECK_FORWARD_DEPS :: nat where "MAX_PACKAGES_TO_CHECK_FORWARD_DEPS = 300"
definition MAX_PACKAGES_TO_CHECK_COOCCUR :: nat where "MAX_PACKAGES_TO_CHECK_COOCCUR = 200"
definition COOCCUR_MULTIPLIER_PER_LIMIT :: nat where "COOCCUR_MULTIPLIER_PER_LIMIT = 10"
definition DEFAULT_MAX_DEPENDENTS_TO_SCAN :: nat where "DEFAULT_MAX_DEPENDENTS_TO_SCAN = 150"
definition MAX_MAX_DEPENDENTS_TO_SCAN :: nat where "MAX_MAX_DEPENDENTS_TO_SCAN = 1000"
definition DEFAULT_MAX_LIVE_CANDIDATES :: nat where "DEFAULT_MAX_LIVE_CANDIDATES = 200"
definition MAX_MAX_LIVE_CANDIDATES :: nat where "MAX_MAX_LIVE_CANDIDATES = 1000"
definition DEFAULT_TOP_SEARCH_LIMIT :: nat where "DEFAULT_TOP_SEARCH_LIMIT = 250"
definition MAX_TOP_SEARCH_LIMIT :: nat where "MAX_TOP_SEARCH_LIMIT = 250"
definition MAX_CANDIDATES_TO_COLLECT :: nat where "MAX_CANDIDATES_TO_COLLECT = 5000"
definition EARLY_TERMINATE_CANDIDATES :: nat where "EARLY_TERMINATE_CANDIDATES = 5000"
definition MAX_POPULAR_FOR_NAME_BASED :: nat where "MAX_POPULAR_FOR_NAME_BASED = 100"

definition MIN_JACCARD_SMALL_BASE :: rat where "MIN_JACCARD_SMALL_BASE = 1 / 1000"
definition MIN_JACCARD_MEDIUM_BASE :: rat where "MIN_JACCARD_MEDIUM_BASE = 1 / 100"
definition MIN_JACCARD_BITSET_SMALL_BASE :: rat where "MIN_JACCARD_BITSET_SMALL_BASE = 1 / 1000"
definition MIN_JACCARD_BITSET_MEDIUM_BASE :: rat where "MIN_JACCARD_BITSET_MEDIUM_BASE = 2 / 100"
definition MIN_SHARED_SMALL_BASE :: nat where "MIN_SHARED_SMALL_BASE = 1"
definition MIN_SHARED_MEDIUM_BASE :: nat where "MIN_SHARED_MEDIUM_BASE = 2"
definition RELAXED_JACCARD_VERY_SMALL :: rat where "RELAXED_JACCARD_VERY_SMALL = 1 / 10000"
definition RELAXED_JACCARD_SMALL :: rat where "RELAXED_JACCARD_SMALL = 5 / 10000"
definition RELAXED_JACCARD_MEDIUM :: rat where "RELAXED_JACCARD_MEDIUM = 1 / 1000"
definition RELAXED_JACCARD_MINIMUM :: rat where "RELAXED_JACCARD_MINIMUM = 1 / 100"
definition MIN_RATIO_VERY_SMALL_DEPS :: rat where "MIN_RATIO_VERY_SMALL_DEPS = 15 / 100"
definition MIN_RATIO_SMALL_DEPS :: rat where "MIN_RATIO_SMALL_DEPS = 1 / 10"
definition MIN_RATIO_MEDIUM_DEPS :: rat where "MIN_RATIO_MEDIUM_DEPS = 5 / 100"
definition MIN_RATIO_COOCCUR_VERY_SMALL_DEPS :: rat where "MIN_RATIO_COOCCUR_VERY_SMALL_DEPS = 2 / 10"
definition MIN_RATIO_COOCCUR_SMALL_DEPS :: rat where "MIN_RATIO_COOCCUR_SMALL_DEPS = 1 / 10"
definition MIN_RATIO_COOCCUR_MEDIUM_DEPS :: rat where "MIN_RATIO_COOCCUR_MEDIUM_DEPS = 5 / 100"
definition COOCCUR_MIN_JACCARD_DEFAULT :: rat where "COOCCUR_MIN_JACCARD_DEFAULT = 1 / 1000"
definition COOCCUR_MIN_JACCARD_SMALL_BASE :: rat where "COOCCUR_MIN_JACCARD_SMALL_BASE = 5 / 10000"
definition COOCCUR_MIN_JACCARD_MEDIUM_BASE :: rat where "COOCCUR_MIN_JACCARD_MEDIUM_BASE = 8 / 10000"
definition DIRECT_DEPENDENCY_BOOST_SCORE :: rat where "DIRECT_DEPENDENCY_BOOST_SCORE = 1 / 2"
definition NAME_BASED_FALLBACK_SCORE :: rat where "NAME_BASED_FALLBACK_SCORE = 1 / 1000"
definition LOW_FETCH_SUCCESS_RATE_THRESHOLD :: rat where "LOW_FETCH_SUCCESS_RATE_THRESHOLD = 3 / 10"
definition LOW_FETCH_RATE_JACCARD_MULTIPLIER :: rat where "LOW_FETCH_RATE_JACCARD_MULTIPLIER = 1 / 2"

definition BASE_SIZE_VERY_SMALL :: nat where "BASE_SIZE_VERY_SMALL = 5"
definition BASE_SIZE_SMALL :: nat where "BASE_SIZE_SMALL = 10"
definition BASE_SIZE_MEDIUM :: nat where "BASE_SIZE_MEDIUM = 20"
definition BASE_SIZE_LARGE :: nat where "BASE_SIZE_LARGE = 50"
definition DEPS_COUNT_VERY_SMALL :: nat where "DEPS_COUNT_VERY_SMALL = 5"
definition DEPS_COUNT_SMALL :: nat where "DEPS_COUNT_SMALL = 10"

definition MIN_SCORE_FOR_EARLY_EXIT :: rat where "MIN_SCORE_FOR_EARLY_EXIT = 1 / 10"
definition MIN_CHECKED_MULTIPLIER :: nat where "MIN_CHECKED_MULTIPLIER = 10"
definition EARLY_EXIT_BATCH_SIZE :: nat where "EARLY_EXIT_BATCH_SIZE = 500"

definition getJaccardThreshold :: "nat \<Rightarrow> rat" where
  "getJaccardThreshold baseSize =
     (if baseSize < BASE_SIZE_SMALL then MIN_JACCARD_SMALL_BASE else MIN_JACCARD_MEDIUM_BASE)"

definition getBitsetJaccardThreshold :: "nat \<Rightarrow> rat" where
  "getBitsetJaccardThreshold baseSize =
     (if baseSize < BASE_SIZE_SMALL then MIN_JACCARD_BITSET_SMALL_BASE
      else MIN_JACCARD_BITSET_MEDIUM_BASE)"

definition getSharedThreshold :: "nat \<Rightarrow> nat" where
  "getSharedThreshold baseSize =
     (if baseSize < BASE_SIZE_SMALL then MIN_SHARED_SMALL_BASE else MIN_SHARED_MEDIUM_BASE)"

definition getRelaxedJaccardThreshold :: "nat \<Rightarrow> rat" where
  "getRelaxedJaccardThreshold baseSize =
     (if baseSize < BASE_SIZE_VERY_SMALL then RELAXED_JACCARD_VERY_SMALL
      else if baseSize < BASE_SIZE_MEDIUM then RELAXED_JACCARD_SMALL
      else RELAXED_JACCARD_MEDIUM)"

definition getForwardDepsRatioThreshold :: "nat \<Rightarrow> rat" where
  "getForwardDepsRatioThreshold depsCount =
     (if depsCount < DEPS_COUNT_VERY_SMALL then MIN_RATIO_VERY_SMALL_DEPS
      else if depsCount < DEPS_COUNT_SMALL then MIN_RATIO_SMALL_DEPS
      else MIN_RATIO_MEDIUM_DEPS)"

definition getCooccurForwardDepsRatioThreshold :: "nat \<Rightarrow> rat" where
  "getCooccurForwardDepsRatioThreshold depsCount =
     (if depsCount < DEPS_COUNT_VERY_SMALL then MIN_RATIO_COOCCUR_VERY_SMALL_DEPS
      else if depsCount < DEPS_COUNT_SMALL then MIN_RATIO_COOCCUR_SMALL_DEPS
      else MIN_RATIO_COOCCUR_MEDIUM_DEPS)"

record CooccurThreshold =
  minShared :: nat
  minJaccard :: rat

definition getCooccurJaccardThreshold :: "nat \<Rightarrow> rat \<Rightarrow> CooccurThreshold" where
  "getCooccurJaccardThreshold baseSize fetchSuccessRate =
     (let (ms, mj) =
            (if baseSize < BASE_SIZE_SMALL
               then (MIN_SHARED_SMALL_BASE, COOCCUR_MIN_JACCARD_SMALL_BASE)
             else if baseSize < BASE_SIZE_LARGE
               then (MIN_SHARED_SMALL_BASE, COOCCUR_MIN_JACCARD_MEDIUM_BASE)
             else (MIN_SHARED_MEDIUM_BASE, COOCCUR_MIN_JACCARD_DEFAULT));
          isLowFetchRate = fetchSuccessRate < LOW_FETCH_SUCCESS_RATE_THRESHOLD;
          (ms, mj) = (if isLowFetchRate
                        then (max 1 (ms - 1), mj * LOW_FETCH_RATE_JACCARD_MULTIPLIER)
                      else (ms, mj))
      in \<lparr> minShared = ms, minJaccard = mj \<rparr>)"


subsection \<open>The environment of the engine\<close>

text \<open>
  A thrown JavaScript value, as far as the code inspects it: its \<open>code\<close> and \<open>status\<close>
  properties, when present, and the text \<open>String(err)\<close>.
\<close>

record js_error =
  err_code :: "string option"
  err_status :: "nat option"
  err_text :: string

text \<open>
  What the engine reads from outside.  \<open>reverseDepsCache\<close> is the object returned by
  \<open>loadReverseDepsCache\<close> and \<open>loadReverseDepsCacheAsync\<close> (a key is absent or holds an
  array of names); \<open>popularPackages\<close> is \<open>loadPopularPackages()\<close>; \<open>packageDeps p\<close> is the
  outcome of \<open>pickLatestDependencies(await fetchPackageMeta(p))\<close>, \<open>None\<close> when the fetch
  rejects; \<open>timedOut p\<close> says that a \<open>withTimeout\<close> wrapped around the asynchronous work
  for \<open>p\<close> (or around the stage it runs in) rejects before that work settles;
  \<open>dependentsBitset p\<close> is the outcome of \<open>getDependentsBitset(p)\<close>, \<open>Inl\<close> when it rejects
  (an unreadable or malformed index file).  Work that the source runs concurrently is
  taken in array order.
\<close>

record env =
  reverseDepsCache :: "string \<Rightarrow> string list option"
  popularPackages :: "string list"
  packageDeps :: "string \<Rightarrow> string list option"
  timedOut :: "string \<Rightarrow> bool"
  dependentsBitset :: "string \<Rightarrow> js_error + 32 word list"

text \<open>\<open>a || b\<close> on values that are \<open>undefined\<close> or an array.\<close>

definition orElse :: "'a option \<Rightarrow> 'a option \<Rightarrow> 'a option" where
  "orElse a b = (case a of Some x \<Rightarrow> Some x | None \<Rightarrow> b)"

subsection \<open>lib/pypi.ts and lib/jaccardBitset.ts\<close>

definition fetchReverseDependentsApprox :: "string \<Rightarrow> string list" where
  "fetchReverseDependentsApprox packageName = []"

text \<open>The loop of \<open>jaccardBitset\<close> is the loop \<open>twoPointer\<close>, on unsigned 32-bit entries.\<close>

definition jaccardBitset :: "32 word list \<Rightarrow> 32 word list \<Rightarrow> rat" where
  "jaccardBitset a b =
     (if length a = 0 \<or> length b = 0 then 0
      else
        (let inter = twoPointer a b 0 0 0
         in of_nat inter / (of_nat (length a) + of_nat (length b) - of_nat inter)))"

subsection \<open>lib/similar.ts: \<open>getReverseDeps\<close> and the name-based fallback\<close>

definition getReverseDeps :: "env \<Rightarrow> string \<Rightarrow> string list" where
  "getReverseDeps E pkg =
     (let normalized = normalizePackageName pkg;
          cached = orElse (reverseDepsCache E normalized) (reverseDepsCache E (toLowerCase pkg))
      in case cached of
           Some arr \<Rightarrow>
             if length arr > 0 then new_Set arr else new_Set (fetchReverseDependentsApprox pkg)
         | None \<Rightarrow> new_Set (fetchReverseDependentsApprox pkg))"

text \<open>The loop of \<open>computeSimilarNameBasedFallback\<close> over \<open>popular\<close>, on \<open>similarNames\<close>.\<close>

fun similarNamesLoop ::
  "env \<Rightarrow> string \<Rightarrow> string \<Rightarrow> string \<Rightarrow> nat \<Rightarrow> string list \<Rightarrow> string list \<Rightarrow> string list" where
  "similarNamesLoop E pkg lower mainName limit [] similarNames = similarNames"
| "similarNamesLoop E pkg lower mainName limit (pop # rest) similarNames =
     (if normalizePackageName pop = lower
        then similarNamesLoop E pkg lower mainName limit rest similarNames
      else
        (let popLower = normalizePackageName pop;
             popMain = mainNameOf popLower;
             similarNames =
               (if (popMain = mainName \<or> str_includes popLower mainName \<or> str_includes lower popMain)
                   \<and> popLower \<noteq> lower \<and> pop \<notin> set similarNames
                then similarNames @ [pop] else similarNames);
             normalizedPop = normalizePackageName pop;
             similarNames =
               (case reverseDepsCache E normalizedPop of
                  None \<Rightarrow> similarNames
                | Some arr \<Rightarrow>
                    if length arr > 0 then
                      (let popDeps = new_Set arr;
                           normalizedPkg = normalizePackageName pkg
                       in if (normalizedPkg \<in> set popDeps \<or> pkg \<in> set popDeps
                               \<or> pop \<in> set similarNames)
                             \<and> popLower \<noteq> lower \<and> pop \<notin> set similarNames
                          then similarNames @ [pop] else similarNames)
                    else similarNames)
         in if length similarNames \<ge> limit * 2 then similarNames
            else similarNamesLoop E pkg lower mainName limit rest similarNames))"

definition computeSimilarNameBasedFallback :: "env \<Rightarrow> string \<Rightarrow> nat \<Rightarrow> SimilarItem list" where
  "computeSimilarNameBasedFallback E pkg limit =
     (let lower = normalizePackageName pkg;
          popular = popularPackages E;
          mainName = mainNameOf lower;
          similarNames = similarNamesLoop E pkg lower mainName limit popular []
      in if length similarNames > 0
         then map (\<lambda>n. mkItem n NAME_BASED_FALLBACK_SCORE 0) (take limit similarNames)
         else [])"

subsection \<open>lib/similar.ts: \<open>computeSimilarOnDemand\<close>, empty base\<close>

text \<open>The checks of the popular packages, on the map \<open>similar\<close>.  A timeout rejects the
  awaited \<open>Promise.all\<close>: the stage ends with what the map holds.\<close>

fun forwardDepsCheck ::
  "env \<Rightarrow> string \<Rightarrow> string list \<Rightarrow> string list
    \<Rightarrow> (string \<times> nat \<times> string list) list \<Rightarrow> (string \<times> nat \<times> string list) list" where
  "forwardDepsCheck E normalizedPkg pkgDepsSet [] similar = similar"
| "forwardDepsCheck E normalizedPkg pkgDepsSet (candidate # rest) similar =
     (let normalizedCandidate = normalizePackageName candidate in
      if normalizedCandidate = normalizedPkg
        then forwardDepsCheck E normalizedPkg pkgDepsSet rest similar
      else if timedOut E candidate then similar
      else
        (case packageDeps E candidate of
           None \<Rightarrow> forwardDepsCheck E normalizedPkg pkgDepsSet rest similar
         | Some candidateDeps \<Rightarrow>
             (let candidateDepsSet = new_Set (map normalizePackageName candidateDeps);
                  sharedDeps = filter (\<lambda>dep. dep \<in> set candidateDepsSet) pkgDepsSet
              in forwardDepsCheck E normalizedPkg pkgDepsSet rest
                   (if length sharedDeps > 0
                    then Map_set similar candidate (length sharedDeps, sharedDeps)
                    else similar))))"

definition cmpSharedThenJaccard :: "SimilarItem \<Rightarrow> SimilarItem \<Rightarrow> rat" where
  "cmpSharedThenJaccard a b =
     (if sharedDependents b \<noteq> sharedDependents a
      then of_nat (sharedDependents b) - of_nat (sharedDependents a)
      else jaccard b - jaccard a)"

definition cmpJaccard :: "SimilarItem \<Rightarrow> SimilarItem \<Rightarrow> rat" where
  "cmpJaccard a b = jaccard b - jaccard a"

definition computeSimilarFromForwardDeps :: "env \<Rightarrow> string \<Rightarrow> nat \<Rightarrow> SimilarItem list" where
  "computeSimilarFromForwardDeps E pkg limit =
     (case packageDeps E pkg of
        None \<Rightarrow> computeSimilarNameBasedFallback E pkg limit
      | Some pkgDeps \<Rightarrow>
          if length pkgDeps = 0 then computeSimilarNameBasedFallback E pkg limit
          else
            (let popular = popularPackages E;
                 normalizedPkg = normalizePackageName pkg;
                 pkgDepsSet = new_Set (map normalizePackageName pkgDeps);
                 packagesToCheck =
                   min (length popular)
                     (min (limit * CANDIDATES_MULTIPLIER_PER_LIMIT) MAX_PACKAGES_TO_CHECK_FORWARD_DEPS);
                 similar = forwardDepsCheck E normalizedPkg pkgDepsSet (take packagesToCheck popular) [];
                 totalDeps = length pkgDeps
             in if totalDeps = 0 then computeSimilarNameBasedFallback E pkg limit
                else
                  (let results =
                         take limit
                           (Array_sort cmpSharedThenJaccard
                              (filter (\<lambda>r. sharedDependents r \<ge> 1
                                        \<and> jaccard r \<ge> getForwardDepsRatioThreshold totalDeps)
                                 (map (\<lambda>(nm, data).
                                         mkItem nm (toFixed6 (of_nat (fst data) / of_nat totalDeps))
                                           (fst data))
                                    similar)))
                   in if length results > 0 then results
                      else computeSimilarNameBasedFallback E pkg limit)))"


subsection \<open>lib/seeds.ts\<close>

definition WEB_FRAMEWORKS :: "string list" where
  "WEB_FRAMEWORKS = [''flask'', ''django'', ''fastapi'', ''tornado'', ''bottle'', ''cherrypy'',
     ''quart'', ''sanic'', ''falcon'', ''pyramid'', ''web2py'']"

definition ASYNC_FRAMEWORKS :: "string list" where
  "ASYNC_FRAMEWORKS = [''aiohttp'', ''trio'', ''curio'', ''starlette'', ''uvicorn'']"

definition UI_FRAMEWORKS :: "string list" where
  "UI_FRAMEWORKS = new_Set (WEB_FRAMEWORKS @ ASYNC_FRAMEWORKS)"

definition isUiFramework :: "string \<Rightarrow> bool" where
  "isUiFramework n =
     (let lower = toLowerCase n
      in lower \<in> set UI_FRAMEWORKS \<or> lower \<in> set WEB_FRAMEWORKS \<or> lower \<in> set ASYNC_FRAMEWORKS)"

subsection \<open>lib/similar.ts: \<open>computeSimilarOnDemand\<close>, candidate collection\<close>

record SimilarOptions =
  restrictToPeerGroup :: "bool option"
  topSearchLimit :: "nat option"
  maxDependentsToScan :: "nat option"
  maxLiveCandidates :: "nat option"

text \<open>\<open>options?.field || dflt\<close> for a numeric field: \<open>undefined\<close> and 0 give the default.\<close>

definition orDefault :: "nat option \<Rightarrow> nat \<Rightarrow> nat" where
  "orDefault v dflt = (case v of None \<Rightarrow> dflt | Some n \<Rightarrow> if n = 0 then dflt else n)"

definition searchTopPackages :: "nat \<Rightarrow> string list" where
  "searchTopPackages limit = []"

definition initialCandidates :: "env \<Rightarrow> string \<Rightarrow> SimilarOptions \<Rightarrow> string list" where
  "initialCandidates E pkg options =
     (let restrict = (restrictToPeerGroup options = Some True) in
      if restrict \<and> isUiFramework pkg then
        fold (\<lambda>n candidates.
                if normalizePackageName n \<noteq> normalizePackageName pkg
                then Set_add candidates n else candidates)
          UI_FRAMEWORKS []
      else
        (let localPopular = popularPackages E;
             tsl = min (orDefault (topSearchLimit options) DEFAULT_TOP_SEARCH_LIMIT)
                     MAX_TOP_SEARCH_LIMIT;
             top = (if length localPopular > 0 then take tsl localPopular
                    else searchTopPackages tsl)
         in fold (\<lambda>n candidates. Set_add candidates n) top []))"

text \<open>The inner loop over \<open>deps\<close> of one dependent, with its \<open>break\<close>.\<close>

fun addDepsAsCandidates :: "string \<Rightarrow> string list \<Rightarrow> string list \<Rightarrow> string list" where
  "addDepsAsCandidates pkg [] candidates = candidates"
| "addDepsAsCandidates pkg (d # deps) candidates =
     (if normalizePackageName d \<noteq> normalizePackageName pkg then
        (let candidates = Set_add candidates d
         in if length candidates \<ge> EARLY_TERMINATE_CANDIDATES then candidates
            else addDepsAsCandidates pkg deps candidates)
      else addDepsAsCandidates pkg deps candidates)"

text \<open>One batch of dependents; the flag says that a timeout rejected the batch.\<close>

fun scanBatch :: "env \<Rightarrow> string \<Rightarrow> string list \<Rightarrow> string list \<Rightarrow> string list \<times> bool" where
  "scanBatch E pkg [] candidates = (candidates, False)"
| "scanBatch E pkg (depPkg # rest) candidates =
     (if timedOut E depPkg then (candidates, True)
      else
        (case packageDeps E depPkg of
           None \<Rightarrow> scanBatch E pkg rest candidates
         | Some deps \<Rightarrow> scanBatch E pkg rest (addDepsAsCandidates pkg deps candidates)))"

function scanDependents :: "env \<Rightarrow> string \<Rightarrow> string list \<Rightarrow> string list \<Rightarrow> string list" where
  "scanDependents E pkg baseDependents candidates =
     (if baseDependents = [] then candidates
      else
        (let (candidates', rejected) = scanBatch E pkg (take 20 baseDependents) candidates
         in if rejected then candidates'
            else if length candidates' \<ge> EARLY_TERMINATE_CANDIDATES then candidates'
            else scanDependents E pkg (drop 20 baseDependents) candidates'))"
  by pat_completeness auto
termination
  by (relation "measure (\<lambda>(E, pkg, baseDependents, candidates). length baseDependents)") auto

declare scanDependents.simps [simp del]

definition collectCandidates :: "env \<Rightarrow> string \<Rightarrow> string list \<Rightarrow> SimilarOptions \<Rightarrow> string list" where
  "collectCandidates E pkg base options =
     (let candidates = initialCandidates E pkg options;
          mds = min (orDefault (maxDependentsToScan options) DEFAULT_MAX_DEPENDENTS_TO_SCAN)
                  MAX_MAX_DEPENDENTS_TO_SCAN;
          baseDependents = take mds base;
          candidates = scanDependents E pkg baseDependents candidates
      in if length candidates > MAX_CANDIDATES_TO_COLLECT
         then take MAX_CANDIDATES_TO_COLLECT candidates else candidates)"

text \<open>The comparator of the priority sort of the candidates.\<close>

definition cacheLookup :: "env \<Rightarrow> string \<Rightarrow> string list option" where
  "cacheLookup E cand =
     orElse (reverseDepsCache E (normalizePackageName cand)) (reverseDepsCache E (toLowerCase cand))"

definition candidatePriority :: "env \<Rightarrow> string list \<Rightarrow> nat \<Rightarrow> string \<Rightarrow> string \<Rightarrow> rat" where
  "candidatePriority E popularSet baseSize a b =
     (let aNorm = normalizePackageName a;
          bNorm = normalizePackageName b;
          aPopular = (aNorm \<in> set popularSet);
          bPopular = (bNorm \<in> set popularSet)
      in if aPopular \<and> \<not> bPopular then - 1
         else if \<not> aPopular \<and> bPopular then 1
         else
           (let aSize = length (case cacheLookup E a of Some arr \<Rightarrow> arr | None \<Rightarrow> []);
                bSize = length (case cacheLookup E b of Some arr \<Rightarrow> arr | None \<Rightarrow> []);
                aDiff = \<bar>int aSize - int baseSize\<bar>;
                bDiff = \<bar>int bSize - int baseSize\<bar>
            in if aSize > 0 \<and> bSize > 0 \<and> aDiff \<noteq> bDiff then of_int (aDiff - bDiff)
               else if aSize > 0 \<and> bSize = 0 then - 1
               else if aSize = 0 \<and> bSize > 0 then 1
               else 0))"


subsection \<open>lib/similar.ts: \<open>computeSimilarOnDemand\<close>, scoring\<close>

text \<open>The variables that \<open>evaluateCandidate\<close> updates: the selector and two counters.\<close>

record EvalState =
  st_heap :: "SimilarItem list"
  st_liveFetches :: nat
  st_checkedCount :: nat

text \<open>
  The bitset block of \<open>evaluateCandidate\<close>: the item it pushes before returning, if any.
  A rejected \<open>getDependentsBitset(cand)\<close> is caught there and ignored.
\<close>

definition bitsetFastPath ::
  "env \<Rightarrow> string list \<Rightarrow> 32 word list \<Rightarrow> string \<Rightarrow> string list \<Rightarrow> SimilarItem option" where
  "bitsetFastPath E base baseBitset cand depSet =
     (if length depSet = 0 \<and> length baseBitset > 0 then
        (case dependentsBitset E cand of
           Inl e \<Rightarrow> None
         | Inr candBitset \<Rightarrow>
             if length candBitset > 0 then
               (let scoreBs = jaccardBitset baseBitset candBitset;
                    minJaccardBs = getBitsetJaccardThreshold (length base)
                in if scoreBs \<ge> minJaccardBs
                   then (let usedScore = toFixed6 scoreBs; usedShared = 0
                         in Some (mkItem cand usedScore usedShared))
                   else None)
             else None)
      else None)"

definition evaluateCandidate ::
  "env \<Rightarrow> string \<Rightarrow> nat \<Rightarrow> string list \<Rightarrow> 32 word list \<Rightarrow> nat \<Rightarrow> string \<Rightarrow> EvalState \<Rightarrow> EvalState" where
  "evaluateCandidate E pkg limit base baseBitset maxLive cand st =
     (let normalizedCand = normalizePackageName cand;
          normalizedPkg = normalizePackageName pkg
      in if normalizedCand = normalizedPkg then st
         else
           (let depSet = new_Set (case cacheLookup E cand of Some arr \<Rightarrow> arr | None \<Rightarrow> [])
            in case bitsetFastPath E base baseBitset cand depSet of
                 Some item \<Rightarrow> st\<lparr> st_heap := heapPushBounded limit (st_heap st) item \<rparr>
               | None \<Rightarrow>
                   (let (depSet, st) =
                          (if length depSet = 0 \<and> st_liveFetches st < maxLive
                           then (new_Set (fetchReverseDependentsApprox cand),
                                 st\<lparr> st_liveFetches := st_liveFetches st + 1 \<rparr>)
                           else (depSet, st))
                    in if length depSet = 0 then st
                       else
                         (let minShared = getSharedThreshold (length base);
                              minJaccard = getJaccardThreshold (length base)
                          in if \<not> canMeetThreshold (length depSet) (length base) minJaccard then st
                             else
                               (let jr = jaccardSimilarity base depSet;
                                    st = st\<lparr> st_checkedCount := st_checkedCount st + 1 \<rparr>
                                in if score jr \<ge> minJaccard \<and> shared jr \<ge> minShared
                                   then st\<lparr> st_heap :=
                                          heapPushBounded limit (st_heap st)
                                            (mkItem cand (toFixed6 (score jr)) (shared jr)) \<rparr>
                                   else st)))))"

definition checkEarlyExit :: "nat \<Rightarrow> EvalState \<Rightarrow> bool" where
  "checkEarlyExit limit st =
     (if length (st_heap st) < limit then False
      else if st_checkedCount st < limit * MIN_CHECKED_MULTIPLIER then False
      else
        (let minScore = (if length (st_heap st) > 0 then jaccard (st_heap st ! 0) else 0)
         in minScore \<ge> MIN_SCORE_FOR_EARLY_EXIT))"

text \<open>One batch of candidates; the flag says that a per-candidate timeout rejected it.\<close>

fun evalBatch ::
  "env \<Rightarrow> string \<Rightarrow> nat \<Rightarrow> string list \<Rightarrow> 32 word list \<Rightarrow> nat \<Rightarrow> string list \<Rightarrow> EvalState
    \<Rightarrow> EvalState \<times> bool" where
  "evalBatch E pkg limit base baseBitset maxLive [] st = (st, False)"
| "evalBatch E pkg limit base baseBitset maxLive (cand # rest) st =
     (if timedOut E cand then (st, True)
      else evalBatch E pkg limit base baseBitset maxLive rest
             (evaluateCandidate E pkg limit base baseBitset maxLive cand st))"

function scoreCandidates ::
  "env \<Rightarrow> string \<Rightarrow> nat \<Rightarrow> string list \<Rightarrow> 32 word list \<Rightarrow> nat \<Rightarrow> string list \<Rightarrow> EvalState
    \<Rightarrow> EvalState" where
  "scoreCandidates E pkg limit base baseBitset maxLive candArray st =
     (if candArray = [] then st
      else
        (let (st', rejected) =
               evalBatch E pkg limit base baseBitset maxLive (take EARLY_EXIT_BATCH_SIZE candArray) st
         in if rejected then st'
            else if checkEarlyExit limit st' then st'
            else scoreCandidates E pkg limit base baseBitset maxLive
                   (drop EARLY_EXIT_BATCH_SIZE candArray) st'))"
  by pat_completeness auto
termination
  by (relation "measure (\<lambda>(E, pkg, limit, base, baseBitset, maxLive, candArray, st). length candArray)")
    (auto simp: EARLY_EXIT_BATCH_SIZE_def)

declare scoreCandidates.simps [simp del]

text \<open>Strategy 1 of the final fallback: the cache-only pass with the relaxed threshold.\<close>

fun relaxedPass :: "env \<Rightarrow> string \<Rightarrow> string list \<Rightarrow> string list \<Rightarrow> SimilarItem list \<Rightarrow> SimilarItem list" where
  "relaxedPass E pkg base [] alt = alt"
| "relaxedPass E pkg base (cand # rest) alt =
     (if normalizePackageName cand = normalizePackageName pkg then relaxedPass E pkg base rest alt
      else
        (case cacheLookup E cand of
           None \<Rightarrow> relaxedPass E pkg base rest alt
         | Some depSetArr \<Rightarrow>
             if length depSetArr = 0 then relaxedPass E pkg base rest alt
             else
               (let depSet = new_Set depSetArr;
                    jr = jaccardSimilarity base depSet;
                    relaxedThreshold = getRelaxedJaccardThreshold (length base)
                in relaxedPass E pkg base rest
                     (if score jr \<ge> relaxedThreshold \<and> shared jr > 0
                      then alt @ [mkItem cand (toFixed6 (score jr)) (shared jr)]
                      else alt))))"

text \<open>Strategy 2: the name-based loop over the first popular packages.\<close>

fun nameBasedLoop :: "string \<Rightarrow> string \<Rightarrow> nat \<Rightarrow> string list \<Rightarrow> SimilarItem list \<Rightarrow> SimilarItem list" where
  "nameBasedLoop lower mainName limit [] nameBased = nameBased"
| "nameBasedLoop lower mainName limit (pop # rest) nameBased =
     (let normalizedPop = normalizePackageName pop in
      if normalizedPop = lower then nameBasedLoop lower mainName limit rest nameBased
      else
        (let popLower = normalizedPop;
             popMain = mainNameOf popLower;
             nameBased =
               (if popMain = mainName \<or> str_includes popLower mainName \<or> str_includes lower popMain
                then nameBased @ [mkItem pop NAME_BASED_FALLBACK_SCORE 0] else nameBased)
         in if length nameBased \<ge> limit then nameBased
            else nameBasedLoop lower mainName limit rest nameBased))"

definition finalFallback ::
  "env \<Rightarrow> string \<Rightarrow> nat \<Rightarrow> string list \<Rightarrow> string list \<Rightarrow> SimilarItem list" where
  "finalFallback E pkg limit base sortedCandidates =
     (let candArray2 = take (min 2000 (length sortedCandidates)) sortedCandidates;
          alt = Array_sort cmpJaccard (relaxedPass E pkg base candArray2 []);
          results = take limit alt
      in if length results = 0 \<and> length base > 0 \<and> length base < BASE_SIZE_SMALL then
           (let popular = popularPackages E;
                lower = normalizePackageName pkg;
                mainName = mainNameOf lower;
                nameBased =
                  nameBasedLoop lower mainName limit
                    (take (min (length popular) MAX_POPULAR_FOR_NAME_BASED) popular) []
            in if length nameBased > 0 then take limit nameBased else results)
         else results)"

definition computeSimilarOnDemand ::
  "env \<Rightarrow> string \<Rightarrow> nat \<Rightarrow> SimilarOptions \<Rightarrow> js_error + SimilarItem list" where
  "computeSimilarOnDemand E pkg limit options =
     (let base = getReverseDeps E pkg in
      if length base < 1 then Inr (computeSimilarFromForwardDeps E pkg limit)
      else
        (let candidates = collectCandidates E pkg base options;
             maxLive = min (orDefault (maxLiveCandidates options) DEFAULT_MAX_LIVE_CANDIDATES)
                         MAX_MAX_LIVE_CANDIDATES
         in case dependentsBitset E pkg of
              Inl e \<Rightarrow> Inl e
            | Inr baseBitset \<Rightarrow>
                (let allCandidates = candidates;
                     popularSet = new_Set (map normalizePackageName (popularPackages E));
                     baseSize = length base;
                     sortedCandidates =
                       Array_sort (candidatePriority E popularSet baseSize) allCandidates;
                     candArray = take (min 5000 (length allCandidates)) sortedCandidates;
                     st = scoreCandidates E pkg limit base baseBitset maxLive candArray
                            \<lparr> st_heap = [], st_liveFetches = 0, st_checkedCount = 0 \<rparr>;
                     results = Array_sort cmpJaccard (st_heap st)
                 in Inr (if length results = 0
                         then finalFallback E pkg limit base sortedCandidates
                         else results))))"


subsection \<open>lib/similar.ts: \<open>computeCooccurrence\<close>\<close>

text \<open>The inner loop of the reverse-dependency strategy over \<open>deps\<close>, on the map \<open>cooccur\<close>.\<close>

fun countDeps :: "string \<Rightarrow> nat \<Rightarrow> string list \<Rightarrow> (string \<times> nat) list \<Rightarrow> (string \<times> nat) list" where
  "countDeps normalizedPkg minForExit [] cooccur = cooccur"
| "countDeps normalizedPkg minForExit (d # deps) cooccur =
     (if normalizePackageName d \<noteq> normalizedPkg then
        (let cooccur =
               Map_set cooccur d ((case Map_get cooccur d of Some c \<Rightarrow> c | None \<Rightarrow> 0) + 1)
         in if length cooccur \<ge> minForExit then cooccur
            else countDeps normalizedPkg minForExit deps cooccur)
      else countDeps normalizedPkg minForExit deps cooccur)"

text \<open>One batch of dependents, on \<open>cooccur\<close> and \<open>successfulFetches\<close>; the flag says that a
  timeout rejected the batch.\<close>

fun cooccurBatch ::
  "env \<Rightarrow> string \<Rightarrow> nat \<Rightarrow> string list \<Rightarrow> (string \<times> nat) list \<times> nat
    \<Rightarrow> ((string \<times> nat) list \<times> nat) \<times> bool" where
  "cooccurBatch E pkg minForExit [] acc = (acc, False)"
| "cooccurBatch E pkg minForExit (depPkg # rest) acc =
     (if timedOut E depPkg then (acc, True)
      else
        (case packageDeps E depPkg of
           None \<Rightarrow> cooccurBatch E pkg minForExit rest acc
         | Some deps \<Rightarrow>
             cooccurBatch E pkg minForExit rest
               (countDeps (normalizePackageName pkg) minForExit deps (fst acc), snd acc + 1)))"

function cooccurScan ::
  "env \<Rightarrow> string \<Rightarrow> nat \<Rightarrow> string list \<Rightarrow> (string \<times> nat) list \<times> nat
    \<Rightarrow> (string \<times> nat) list \<times> nat" where
  "cooccurScan E pkg minForExit baseDependents acc =
     (if baseDependents = [] then acc
      else
        (let (acc', rejected) = cooccurBatch E pkg minForExit (take 20 baseDependents) acc
         in if rejected then acc'
            else if length (fst acc') \<ge> minForExit then acc'
            else cooccurScan E pkg minForExit (drop 20 baseDependents) acc'))"
  by pat_completeness auto
termination
  by (relation "measure (\<lambda>(E, pkg, minForExit, baseDependents, acc). length baseDependents)") auto

declare cooccurScan.simps [simp del]

definition computeCooccurrenceFromReverseDeps ::
  "env \<Rightarrow> string \<Rightarrow> nat \<Rightarrow> string list \<Rightarrow> nat option \<Rightarrow> SimilarItem list" where
  "computeCooccurrenceFromReverseDeps E pkg limit base optMaxDependentsToScan =
     (let mds = min (orDefault optMaxDependentsToScan DEFAULT_MAX_DEPENDENTS_TO_SCAN)
                  MAX_MAX_DEPENDENTS_TO_SCAN;
          baseDependents = take mds base;
          baseSize = (if length base = 0 then 1 else length base);
          minForExit = limit * 3;
          (cooccur, successfulFetches) = cooccurScan E pkg minForExit baseDependents ([], 0);
          fetchSuccessRate =
            (if length baseDependents > 0
             then of_nat successfulFetches / of_nat (length baseDependents) else 0);
          scannedCount = (if successfulFetches > 0 then successfulFetches else length baseDependents);
          minJaccardForScanned =
            (if scannedCount < 200 then 1 / 100 else max (5 / 1000) COOCCUR_MIN_JACCARD_DEFAULT);
          minSharedForScanned =
            (if scannedCount < 200 then max 1 (nat \<lceil>(of_nat scannedCount :: rat) * (1 / 100)\<rceil>) else 1);
          threshold =
            (if scannedCount < 500
             then \<lparr> minShared = minSharedForScanned, minJaccard = minJaccardForScanned \<rparr>
             else getCooccurJaccardThreshold baseSize fetchSuccessRate);
          scored =
            map (\<lambda>(nm, count).
                   mkItem nm
                     (toFixed6 (if scannedCount > 0 then of_nat count / of_nat scannedCount else 0))
                     count)
              cooccur;
          coRes =
            take limit
              (Array_sort cmpJaccard
                 (filter (\<lambda>r. sharedDependents r \<ge> minShared threshold
                           \<and> jaccard r \<ge> minJaccard threshold) scored));
          relaxed =
            take limit
              (Array_sort cmpJaccard
                 (filter (\<lambda>r. sharedDependents r \<ge> 1 \<and> jaccard r \<ge> RELAXED_JACCARD_VERY_SMALL)
                    scored))
      in if length coRes = 0 \<and> length cooccur > 0 \<and> length relaxed > 0 then relaxed else coRes)"

text \<open>The loop of \<open>computeCooccurrenceNameBasedFallback\<close>, on \<open>cooccurCandidates\<close>.\<close>

fun cooccurNamesLoop :: "string \<Rightarrow> string \<Rightarrow> nat \<Rightarrow> string list \<Rightarrow> string list \<Rightarrow> string list" where
  "cooccurNamesLoop lower mainName limit [] cooccurCandidates = cooccurCandidates"
| "cooccurNamesLoop lower mainName limit (pop # rest) cooccurCandidates =
     (let normalizedPop = normalizePackageName pop in
      if normalizedPop = lower then cooccurNamesLoop lower mainName limit rest cooccurCandidates
      else
        (let popLower = normalizedPop;
             popMain = mainNameOf popLower;
             cooccurCandidates =
               (if (popMain = mainName \<or> str_includes popLower mainName \<or> str_includes lower popMain)
                   \<and> pop \<notin> set cooccurCandidates
                then cooccurCandidates @ [pop] else cooccurCandidates)
         in if length cooccurCandidates \<ge> limit * 2 then cooccurCandidates
            else cooccurNamesLoop lower mainName limit rest cooccurCandidates))"

definition computeCooccurrenceNameBasedFallback :: "env \<Rightarrow> string \<Rightarrow> nat \<Rightarrow> SimilarItem list" where
  "computeCooccurrenceNameBasedFallback E pkg limit =
     (let popular = popularPackages E;
          lower = normalizePackageName pkg;
          mainName = mainNameOf lower;
          cooccurCandidates =
            cooccurNamesLoop lower mainName limit
              (take (min (length popular) MAX_POPULAR_FOR_NAME_BASED) popular) []
      in if length cooccurCandidates > 0
         then map (\<lambda>n. mkItem n NAME_BASED_FALLBACK_SCORE 0) (take limit cooccurCandidates)
         else [])"

text \<open>The checks of the popular packages in the forward-dependency strategy, on \<open>cooccur\<close>.\<close>

fun cooccurForwardCheck ::
  "env \<Rightarrow> string \<Rightarrow> string list \<Rightarrow> string list
    \<Rightarrow> (string \<times> nat \<times> string list) list \<Rightarrow> (string \<times> nat \<times> string list) list" where
  "cooccurForwardCheck E normalizedPkg pkgDepsSet [] cooccur = cooccur"
| "cooccurForwardCheck E normalizedPkg pkgDepsSet (pop # rest) cooccur =
     (let normalizedPop = normalizePackageName pop in
      if normalizedPop = normalizedPkg
        then cooccurForwardCheck E normalizedPkg pkgDepsSet rest cooccur
      else if normalizedPop \<in> set pkgDepsSet
        then cooccurForwardCheck E normalizedPkg pkgDepsSet rest cooccur
      else if timedOut E pop then cooccur
      else
        (case packageDeps E pop of
           None \<Rightarrow> cooccurForwardCheck E normalizedPkg pkgDepsSet rest cooccur
         | Some popDeps \<Rightarrow>
             (let popDepsSet = new_Set (map normalizePackageName popDeps);
                  sharedDepsList = filter (\<lambda>dep. dep \<in> set popDepsSet) pkgDepsSet;
                  sharedCount = length sharedDepsList
              in cooccurForwardCheck E normalizedPkg pkgDepsSet rest
                   (if sharedCount > 0 then
                      (case Map_get cooccur pop of
                         None \<Rightarrow> Map_set cooccur pop (sharedCount, sharedDepsList)
                       | Some existing \<Rightarrow>
                           if fst existing < sharedCount
                           then Map_set cooccur pop (sharedCount, sharedDepsList)
                           else cooccur)
                    else cooccur))))"

definition cmpDirectFirst :: "string list \<Rightarrow> SimilarItem \<Rightarrow> SimilarItem \<Rightarrow> rat" where
  "cmpDirectFirst pkgDepsSet a b =
     (let aIsDirect = (normalizePackageName (name a) \<in> set pkgDepsSet);
          bIsDirect = (normalizePackageName (name b) \<in> set pkgDepsSet)
      in if aIsDirect \<and> \<not> bIsDirect then - 1
         else if \<not> aIsDirect \<and> bIsDirect then 1
         else if sharedDependents b \<noteq> sharedDependents a
           then of_nat (sharedDependents b) - of_nat (sharedDependents a)
         else jaccard b - jaccard a)"

definition computeCooccurrenceFromForwardDeps :: "env \<Rightarrow> string \<Rightarrow> nat \<Rightarrow> SimilarItem list" where
  "computeCooccurrenceFromForwardDeps E pkg limit =
     (case packageDeps E pkg of
        None \<Rightarrow> computeCooccurrenceNameBasedFallback E pkg limit
      | Some pkgDeps \<Rightarrow>
          if length pkgDeps = 0 then computeCooccurrenceNameBasedFallback E pkg limit
          else
            (let popular = popularPackages E;
                 normalizedPkg = normalizePackageName pkg;
                 pkgDepsSet = new_Set (map normalizePackageName pkgDeps);
                 popularSet = new_Set (map normalizePackageName popular);
                 cooccur =
                   fold (\<lambda>dep cooccur.
                           if normalizePackageName dep \<in> set popularSet
                           then Map_set cooccur dep (1, [dep]) else cooccur)
                     pkgDeps [];
                 packagesToCheck =
                   min (length popular)
                     (min (limit * COOCCUR_MULTIPLIER_PER_LIMIT) MAX_PACKAGES_TO_CHECK_COOCCUR);
                 cooccur =
                   cooccurForwardCheck E normalizedPkg pkgDepsSet (take packagesToCheck popular) cooccur;
                 totalDeps = length pkgDeps
             in if totalDeps = 0 then computeCooccurrenceNameBasedFallback E pkg limit
                else
                  (let coRes =
                         take limit
                           (Array_sort (cmpDirectFirst pkgDepsSet)
                              (filter (\<lambda>r. normalizePackageName (name r) \<in> set pkgDepsSet
                                        \<or> (sharedDependents r \<ge> 1
                                            \<and> jaccard r \<ge> getCooccurForwardDepsRatioThreshold totalDeps))
                                 (map (\<lambda>(nm, data).
                                         (let isDirectDep = (normalizePackageName nm \<in> set pkgDepsSet);
                                              baseScore = of_nat (fst data) / of_nat totalDeps;
                                              sc = (if isDirectDep
                                                    then max baseScore DIRECT_DEPENDENCY_BOOST_SCORE
                                                    else baseScore)
                                          in mkItem nm (toFixed6 sc) (fst data)))
                                    cooccur)));
                       relaxed =
                         take limit
                           (Array_sort cmpSharedThenJaccard
                              (filter (\<lambda>r. sharedDependents r \<ge> 1
                                        \<and> jaccard r \<ge> RELAXED_JACCARD_MINIMUM)
                                 (map (\<lambda>(nm, data).
                                         mkItem nm (toFixed6 (of_nat (fst data) / of_nat totalDeps))
                                           (fst data))
                                    cooccur)))
                   in if length coRes > 0 then coRes
                      else if length relaxed > 0 then relaxed
                      else computeCooccurrenceNameBasedFallback E pkg limit)))"

definition computeCooccurrence :: "env \<Rightarrow> string \<Rightarrow> nat \<Rightarrow> nat option \<Rightarrow> SimilarItem list" where
  "computeCooccurrence E pkg limit optMaxDependentsToScan =
     (let base = getReverseDeps E pkg in
      if length base > 0
      then computeCooccurrenceFromReverseDeps E pkg limit base optMaxDependentsToScan
      else computeCooccurrenceFromForwardDeps E pkg limit)"


subsection \<open>app/api/similar/[pkg]/route.ts\<close>

text \<open>
  What the route handler reads besides the engine's environment: its in-memory response
  cache, by package and limit; the precomputed index of \<open>loadSimilarIndexCache\<close>, whose
  loading may throw; and the clock, as the answer to \<open>Date.now() - start > BUDGET_MS\<close>
  before each refinement step.
\<close>

record route_env = env +
  responseCache :: "string \<Rightarrow> nat \<Rightarrow> (SimilarItem list \<times> SimilarItem list) option"
  similarIndexCache :: "js_error + (string \<Rightarrow> SimilarItem list option)"
  overBudget :: "nat \<Rightarrow> bool"

datatype response =
  JsonError nat string
  | JsonOk "SimilarItem list" "SimilarItem list"

definition MIN_RESULTS_FOR_QUALITY :: nat where "MIN_RESULTS_FOR_QUALITY = 10"
definition MIN_TOP_SCORE_FOR_QUALITY :: rat where "MIN_TOP_SCORE_FOR_QUALITY = 5 / 100"
definition INITIAL_MAX_DEPENDENTS_TO_SCAN :: nat where "INITIAL_MAX_DEPENDENTS_TO_SCAN = 150"
definition INITIAL_MAX_LIVE_CANDIDATES :: nat where "INITIAL_MAX_LIVE_CANDIDATES = 200"
definition REFINEMENT_STEPS :: "(nat \<times> nat) list" where
  "REFINEMENT_STEPS = [(300, 400), (450, 600), (600, 800)]"

definition getPrecomputedSimilar ::
  "route_env \<Rightarrow> string \<Rightarrow> nat \<Rightarrow> js_error + SimilarItem list option" where
  "getPrecomputedSimilar R pkg limit =
     (case similarIndexCache R of
        Inl e \<Rightarrow> Inl e
      | Inr cache \<Rightarrow>
          (case orElse (cache (normalizePackageName pkg)) (cache (toLowerCase pkg)) of
             None \<Rightarrow> Inr None
           | Some lst \<Rightarrow> if length lst = 0 then Inr None else Inr (Some (take limit lst))))"

definition qualityOk :: "SimilarItem list option \<Rightarrow> bool" where
  "qualityOk lst =
     (case lst of
        None \<Rightarrow> False
      | Some l \<Rightarrow>
          if length l = 0 then False
          else length l \<ge> MIN_RESULTS_FOR_QUALITY \<and> jaccard (l ! 0) \<ge> MIN_TOP_SCORE_FOR_QUALITY)"

definition stepOptions :: "nat \<Rightarrow> nat \<Rightarrow> SimilarOptions" where
  "stepOptions maxDeps maxLive =
     \<lparr> restrictToPeerGroup = Some False, topSearchLimit = Some DEFAULT_TOP_SEARCH_LIMIT,
       maxDependentsToScan = Some maxDeps, maxLiveCandidates = Some maxLive \<rparr>"

text \<open>The progressive refinement loop, on \<open>best\<close>; \<open>k\<close> counts the steps taken.\<close>

fun refine ::
  "route_env \<Rightarrow> string \<Rightarrow> nat \<Rightarrow> nat \<Rightarrow> (nat \<times> nat) list \<Rightarrow> SimilarItem list
    \<Rightarrow> js_error + SimilarItem list" where
  "refine R pkg limit k [] best = Inr best"
| "refine R pkg limit k (step # attempts) best =
     (if overBudget R k then Inr best
      else
        (case computeSimilarOnDemand (env.truncate R) pkg limit (stepOptions (fst step) (snd step)) of
           Inl e \<Rightarrow> Inl e
         | Inr next \<Rightarrow>
             (let bestTop = (if length best > 0 then jaccard (best ! 0) else 0);
                  nextTop = (if length next > 0 then jaccard (next ! 0) else 0);
                  best = (if nextTop > bestTop \<or> length next > length best then next else best)
              in if qualityOk (Some best) then Inr best
                 else refine R pkg limit (k + 1) attempts best)))"

text \<open>
  The handler.  \<open>urlLimit\<close> is the \<open>limit\<close> query parameter read as a count, \<open>None\<close> when it
  is absent or not a number; the \<open>try\<close> block is the part after the check of \<open>pkg\<close>, and a
  thrown value becomes the response 500.
\<close>

definition GET :: "route_env \<Rightarrow> string \<Rightarrow> nat option \<Rightarrow> bool \<Rightarrow> response" where
  "GET R pkg urlLimit nocache =
     (if pkg = [] then JsonError 400 ''Invalid package name''
      else
        (let limit = max 1 (min 100 (orDefault urlLimit 20));
             cachedResp = (if \<not> nocache then responseCache R (toLowerCase pkg) limit else None)
         in case cachedResp of
              Some (sim, co) \<Rightarrow> JsonOk sim co
            | None \<Rightarrow>
                (case (if \<not> nocache then getPrecomputedSimilar R pkg limit else Inr None) of
                   Inl e \<Rightarrow> JsonError 500 ''Internal server error''
                 | Inr cached \<Rightarrow>
                     (let cooccur =
                            computeCooccurrence (env.truncate R) pkg limit
                              (Some INITIAL_MAX_DEPENDENTS_TO_SCAN);
                          onDemand =
                            computeSimilarOnDemand (env.truncate R) pkg limit
                              (stepOptions INITIAL_MAX_DEPENDENTS_TO_SCAN INITIAL_MAX_LIVE_CANDIDATES);
                          first =
                            (case cached of
                               None \<Rightarrow> onDemand
                             | Some best \<Rightarrow> if \<not> qualityOk cached then onDemand else Inr best)
                      in case first of
                           Inl e \<Rightarrow> JsonError 500 ''Internal server error''
                         | Inr best \<Rightarrow>
                             (case (if \<not> qualityOk (Some best)
                                    then refine R pkg limit 0 REFINEMENT_STEPS best
                                    else Inr best) of
                                Inl e \<Rightarrow> JsonError 500 ''Internal server error''
                              | Inr best \<Rightarrow> JsonOk best cooccur)))))"

text \<open>Whether an item names a direct dependency of the query: the test
  \<open>pkgDepsSet.has(normalizePackageName(r.name))\<close> of \<open>computeCooccurrenceFromForwardDeps\<close>,
  false when the query's dependencies could not be fetched.\<close>

definition isDirectDependency :: "env \<Rightarrow> string \<Rightarrow> SimilarItem \<Rightarrow> bool" where
  "isDirectDependency E pkg r =
     (case packageDeps E pkg of
        None \<Rightarrow> False
      | Some pkgDeps \<Rightarrow>
          normalizePackageName (name r) \<in> set (new_Set (map normalizePackageName pkgDeps)))"

section \<open>lib/pypi.ts: \<open>fetchJsonWithCache\<close>\<close>

definition MAX_RETRY_ATTEMPTS :: nat where "MAX_RETRY_ATTEMPTS = 5"
definition RETRY_INITIAL_DELAY_MS :: nat where "RETRY_INITIAL_DELAY_MS = 1000"
definition RETRY_MAX_DELAY_MS :: nat where "RETRY_MAX_DELAY_MS = 10000"
definition RETRY_JITTER_MS :: nat where "RETRY_JITTER_MS = 500"

text \<open>\<open>String(n)\<close> for a count \<open>n\<close>, and the value \<open>new Error(msg)\<close>, whose text is
  \<open>"Error: " + msg\<close> and which has no \<open>code\<close> and no \<open>status\<close>.\<close>

definition digitChar :: "nat \<Rightarrow> char" where
  "digitChar d = ''0123456789'' ! d"

fun String_nat :: "nat \<Rightarrow> string" where
  "String_nat n =
     (if n < 10 then [digitChar n] else String_nat (n div 10) @ [digitChar (n mod 10)])"

declare String_nat.simps [simp del]

definition newError :: "string \<Rightarrow> js_error" where
  "newError msg = \<lparr> err_code = None, err_status = None, err_text = ''Error: '' @ msg \<rparr>"

definition retryableCodes :: "string list" where
  "retryableCodes = [''ECONNREFUSED'', ''ETIMEDOUT'', ''ENOTFOUND'', ''ECONNRESET'', ''EAI_AGAIN'']"

definition retryableMessages :: "string list" where
  "retryableMessages = [''network'', ''timeout'', ''connection'', ''failed to fetch'', ''fetch failed'']"

definition isRetryableError :: "js_error \<Rightarrow> bool" where
  "isRetryableError err =
     (let msg = err_text err;
          code = err_code err
      in if (case code of Some c \<Rightarrow> c \<noteq> [] \<and> c \<in> set retryableCodes | None \<Rightarrow> False) then True
         else list_ex (\<lambda>pattern. str_includes (toLowerCase msg) pattern) retryableMessages)"

text \<open>
  What one call of \<open>fetchJsonWithCache\<close> meets outside: the entry of the shared LRU cache
  for a key, if any; for each attempt at a URL, counted from one, either the rejection of
  \<open>fetchWithTimeout\<close> or a response, given by its status and the outcome of \<open>res.json()\<close>;
  and the value of \<open>Math.random()\<close> when the delay after an attempt is computed.  The
  pauses of \<open>rateLimit\<close> change nothing but the time taken and are left out.
\<close>

datatype fetch_outcome =
  Rejected js_error
  | Responded nat "js_error + string"

record fetch_env =
  lruGet :: "string \<Rightarrow> string option"
  fetchWithTimeout :: "string \<Rightarrow> nat \<Rightarrow> fetch_outcome"
  mathRandom :: "nat \<Rightarrow> rat"

text \<open>The result of a call: the value returned or thrown, the number of attempts made and the
  delays waited between them, in milliseconds.\<close>

record fetch_run =
  fr_result :: "js_error + string"
  fr_attempts :: nat
  fr_delays :: "nat list"

definition res_ok :: "nat \<Rightarrow> bool" where
  "res_ok status = (200 \<le> status \<and> status \<le> 299)"

definition retryDelay :: "fetch_env \<Rightarrow> nat \<Rightarrow> nat" where
  "retryDelay W attempt =
     min (RETRY_INITIAL_DELAY_MS * 2 ^ (attempt - 1)) RETRY_MAX_DELAY_MS
       + nat \<lfloor>mathRandom W attempt * of_nat RETRY_JITTER_MS\<rfloor>"

text \<open>One turn of the \<open>while\<close> loop, up to the point where it returns, throws, or goes on to
  the delay: by \<open>continue\<close> in the \<open>try\<close> block, or at the end of the \<open>catch\<close> block with
  \<open>lastError\<close> set.\<close>

datatype attempt_outcome =
  Returned string
  | Thrown js_error
  | Continue
  | Caught js_error

definition shouldRetry :: "js_error \<Rightarrow> bool" where
  "shouldRetry err =
     (isRetryableError err \<or> err_status err = Some 429
      \<or> (case err_status err of Some s \<Rightarrow> s | None \<Rightarrow> 0) \<ge> 500)"

definition catchBlock :: "nat \<Rightarrow> js_error \<Rightarrow> attempt_outcome" where
  "catchBlock attempt err =
     (if \<not> shouldRetry err \<or> attempt \<ge> MAX_RETRY_ATTEMPTS then Thrown err else Caught err)"

definition tryBlock :: "fetch_env \<Rightarrow> string \<Rightarrow> nat \<Rightarrow> attempt_outcome" where
  "tryBlock W url attempt =
     (case fetchWithTimeout W url attempt of
        Rejected err \<Rightarrow> catchBlock attempt err
      | Responded status body \<Rightarrow>
          if \<not> res_ok status then
            (if (status = 429 \<or> status \<ge> 500) \<and> attempt < MAX_RETRY_ATTEMPTS then Continue
             else catchBlock attempt (newError (''HTTP '' @ String_nat status @ '' for '' @ url)))
          else
            (case body of
               Inl err \<Rightarrow> catchBlock attempt err
             | Inr json \<Rightarrow> Returned json))"

function attemptLoop ::
  "fetch_env \<Rightarrow> string \<Rightarrow> nat \<Rightarrow> js_error option \<Rightarrow> nat list \<Rightarrow> fetch_run" where
  "attemptLoop W url attempt lastError waited =
     (if attempt < MAX_RETRY_ATTEMPTS then
        (case tryBlock W url (attempt + 1) of
           Returned json \<Rightarrow>
             \<lparr> fr_result = Inr json, fr_attempts = attempt + 1, fr_delays = waited \<rparr>
         | Thrown err \<Rightarrow>
             \<lparr> fr_result = Inl err, fr_attempts = attempt + 1, fr_delays = waited \<rparr>
         | Continue \<Rightarrow>
             attemptLoop W url (attempt + 1) lastError (waited @ [retryDelay W (attempt + 1)])
         | Caught err \<Rightarrow>
             attemptLoop W url (attempt + 1) (Some err) (waited @ [retryDelay W (attempt + 1)]))
      else
        \<lparr> fr_result = Inl (case lastError of Some e \<Rightarrow> e
                                | None \<Rightarrow> newError ''Max retry attempts reached''),
          fr_attempts = attempt, fr_delays = waited \<rparr>)"
  by pat_completeness auto
termination
  by (relation "measure (\<lambda>(W, url, attempt, lastError, waited). MAX_RETRY_ATTEMPTS - attempt)") auto

declare attemptLoop.simps [simp del]

definition fetchJsonWithCache :: "fetch_env \<Rightarrow> string \<Rightarrow> string \<Rightarrow> fetch_run" where
  "fetchJsonWithCache W key url =
     (case lruGet W key of
        Some hit \<Rightarrow> \<lparr> fr_result = Inr hit, fr_attempts = 0, fr_delays = [] \<rparr>
      | None \<Rightarrow> attemptLoop W url 0 None [])"

section \<open>Example environments\<close>

text \<open>Concrete environments on which the engine is evaluated below.\<close>

definition noOptions :: SimilarOptions where
  "noOptions = \<lparr> restrictToPeerGroup = None, topSearchLimit = None,
     maxDependentsToScan = None, maxLiveCandidates = None \<rparr>"


text \<open>The query \<open>q\<close> and the package \<open>cand\<close> have cached dependents, one of them in common;
  the popular list names the query itself, as \<open>Q\<close>, ahead of \<open>cand\<close>; there is no bitset
  index and no metadata fetch succeeds.\<close>

definition cachedExampleEnv :: env where
  "cachedExampleEnv =
     \<lparr> reverseDepsCache = map_of [(''q'', [''d1'', ''d2'']), (''cand'', [''d1'', ''d3''])],
       popularPackages = [''Q'', ''cand''],
       packageDeps = (\<lambda>p. None),
       timedOut = (\<lambda>p. False),
       dependentsBitset = (\<lambda>p. Inr []) \<rparr>"

text \<open>The query \<open>q\<close> has no known dependents and depends on \<open>numpy\<close> and \<open>scipy\<close>; the
  popular package \<open>foo\<close> depends on both of them as well.\<close>

definition forwardExampleEnv :: env where
  "forwardExampleEnv =
     \<lparr> reverseDepsCache = (\<lambda>p. None),
       popularPackages = [''numpy'', ''scipy'', ''foo''],
       packageDeps = map_of [(''q'', [''numpy'', ''scipy'']), (''foo'', [''numpy'', ''scipy''])],
       timedOut = (\<lambda>p. False),
       dependentsBitset = (\<lambda>p. Inr []) \<rparr>"

text \<open>The query \<open>q\<close> has no known dependents and depends on \<open>foo\<close>, which is not in the list
  of popular packages.\<close>

definition unpopularDepEnv :: env where
  "unpopularDepEnv =
     \<lparr> reverseDepsCache = (\<lambda>p. None),
       popularPackages = [''bar''],
       packageDeps = map_of [(''q'', [''foo''])],
       timedOut = (\<lambda>p. False),
       dependentsBitset = (\<lambda>p. Inr []) \<rparr>"



text \<open>The bitset index cannot be read: every call of \<open>getDependentsBitset\<close> rejects with
  the error of \<open>JSON.parse\<close>.  The rest is as in \<open>cachedExampleEnv\<close>; the route has an empty
  response cache and an empty precomputed index.\<close>

definition jsonSyntaxError :: js_error where
  "jsonSyntaxError =
     \<lparr> err_code = None, err_status = None,
       err_text = ''SyntaxError: Unexpected end of JSON input'' \<rparr>"

definition brokenBitsetEnv :: env where
  "brokenBitsetEnv =
     \<lparr> reverseDepsCache = map_of [(''q'', [''d1'', ''d2'']), (''cand'', [''d1'', ''d3''])],
       popularPackages = [''Q'', ''cand''],
       packageDeps = (\<lambda>p. None),
       timedOut = (\<lambda>p. False),
       dependentsBitset = (\<lambda>p. Inl jsonSyntaxError) \<rparr>"

definition brokenBitsetRoute :: route_env where
  "brokenBitsetRoute =
     \<lparr> reverseDepsCache = map_of [(''q'', [''d1'', ''d2'']), (''cand'', [''d1'', ''d3''])],
       popularPackages = [''Q'', ''cand''],
       packageDeps = (\<lambda>p. None),
       timedOut = (\<lambda>p. False),
       dependentsBitset = (\<lambda>p. Inl jsonSyntaxError),
       responseCache = (\<lambda>p l. None),
       similarIndexCache = Inr (\<lambda>p. None),
       overBudget = (\<lambda>k. False) \<rparr>"

text \<open>The LRU cache is empty, every request is answered with status 404, and
  \<open>Math.random()\<close> is one half.\<close>

definition notFoundWorld :: fetch_env where
  "notFoundWorld =
     \<lparr> lruGet = (\<lambda>k. None),
       fetchWithTimeout = (\<lambda>url attempt. Responded 404 (Inr [])),
       mathRandom = (\<lambda>attempt. 1 / 2) \<rparr>"
section \<open>Properties of the Jaccard functions\<close>

lemma set_Set_add: "set (Set_add s x) = insert x (set s)"
  by (auto simp: Set_add_def)

lemma distinct_Set_add: "distinct s \<Longrightarrow> distinct (Set_add s x)"
  by (simp add: Set_add_def)

lemma foldl_Set_add: "distinct s \<Longrightarrow> distinct (foldl Set_add s xs) \<and> set (foldl Set_add s xs) = set s \<union> set xs"
  by (induction xs arbitrary: s) (auto simp: set_Set_add distinct_Set_add)

lemma distinct_new_Set: "distinct (new_Set xs)"
  using foldl_Set_add [of "[]" xs] by (simp add: new_Set_def)

lemma set_new_Set: "set (new_Set xs) = set xs"
  using foldl_Set_add [of "[]" xs] by (simp add: new_Set_def)

lemma fold_count: "fold (\<lambda>x n. if x \<in> B then n + 1 else n) a (n0::nat) = n0 + length (filter (\<lambda>x. x \<in> B) a)"
  by (induction a arbitrary: n0) auto

lemma standard_shared:
  assumes "distinct a"
  shows "fold (\<lambda>x n. if x \<in> set b then n + 1 else n) a (0::nat) = card (set a \<inter> set b)"
proof -
  have "length (filter (\<lambda>x. x \<in> set b) a) = card ({x. x \<in> set b} \<inter> set a)"
    using assms by (rule distinct_length_filter)
  also have "{x. x \<in> set b} \<inter> set a = set a \<inter> set b" by auto
  finally show ?thesis by (simp add: fold_count)
qed

lemma twoPointer_count:
  assumes "sorted_wrt (<) arrA" "sorted_wrt (<) arrB"
  shows "twoPointer arrA arrB i j n = n + card (set (drop i arrA) \<inter> set (drop j arrB))"
  using assms
proof (induction arrA arrB i j n rule: twoPointer.induct)
  case (1 arrA arrB i j n)
  show ?case
  proof (cases "i < length arrA \<and> j < length arrB")
    case False
    then show ?thesis by (subst twoPointer.simps) auto
  next
    case True
    define x where "x = arrA ! i"
    define y where "y = arrB ! j"
    define xs where "xs = drop (Suc i) arrA"
    define ys where "ys = drop (Suc j) arrB"
    have dA: "drop i arrA = x # xs" and dB: "drop j arrB = y # ys"
      using True by (simp_all add: x_def y_def xs_def ys_def Cons_nth_drop_Suc)
    have sA: "sorted_wrt (<) (x # xs)" and sB: "sorted_wrt (<) (y # ys)"
      using "1.prems" sorted_wrt_drop [of "(<)" arrA i] sorted_wrt_drop [of "(<)" arrB j]
      by (simp_all add: dA dB)
    have xs_gt: "\<forall>z \<in> set xs. x < z" and ys_gt: "\<forall>z \<in> set ys. y < z"
      using sA sB by auto
    show ?thesis
    proof (cases x y rule: linorder_cases)
      case equal
      have "twoPointer arrA arrB i j n = twoPointer arrA arrB (i + 1) (j + 1) (n + 1)"
        using True equal by (subst twoPointer.simps) (simp add: x_def y_def)
      also have "\<dots> = n + 1 + card (set xs \<inter> set ys)"
        using "1.IH"(1) True equal "1.prems" by (simp add: x_def y_def xs_def ys_def)
      also have "set (x # xs) \<inter> set (y # ys) = insert x (set xs \<inter> set ys)"
        using equal xs_gt ys_gt by auto
      moreover have "x \<notin> set xs \<inter> set ys" using xs_gt by auto
      ultimately show ?thesis by (simp add: dA dB)
    next
      case less
      then have ne: "x \<noteq> y" by simp
      have "twoPointer arrA arrB i j n = twoPointer arrA arrB (i + 1) j n"
        using True less ne by (subst twoPointer.simps) (simp add: x_def y_def)
      also have "\<dots> = n + card (set xs \<inter> set (y # ys))"
        using "1.IH"(2) True less ne "1.prems" by (simp add: x_def y_def xs_def dB)
      also have "set xs \<inter> set (y # ys) = set (x # xs) \<inter> set (y # ys)"
        using less ys_gt by auto
      finally show ?thesis by (simp add: dA dB)
    next
      case greater
      then have ne: "x \<noteq> y" and nlt: "\<not> x < y" by simp_all
      have "twoPointer arrA arrB i j n = twoPointer arrA arrB i (j + 1) n"
        using True ne nlt by (subst twoPointer.simps) (simp add: x_def y_def)
      also have "\<dots> = n + card (set (x # xs) \<inter> set ys)"
        using "1.IH"(3) True ne nlt "1.prems" by (simp add: x_def y_def ys_def dA)
      also have "set (x # xs) \<inter> set ys = set (x # xs) \<inter> set (y # ys)"
        using greater xs_gt by auto
      finally show ?thesis by (simp add: dA dB)
    qed
  qed
qed

lemma optimized_shared:
  assumes "distinct a" "distinct b"
  shows "twoPointer (sort a) (sort b) 0 0 0 = card (set a \<inter> set b)"
proof -
  have "sorted_wrt (<) (sort a)" "sorted_wrt (<) (sort b)"
    using assms by (simp_all add: strict_sorted_iff)
  then show ?thesis by (simp add: twoPointer_count)
qed

lemma card_union_lists:
  assumes "distinct a" "distinct b"
  shows "length a + length b - card (set a \<inter> set b) = card (set a \<union> set b)"
proof -
  have "card (set a \<union> set b) + card (set a \<inter> set b) = card (set a) + card (set b)"
    using card_Un_Int [of "set a" "set b"] by simp
  then show ?thesis using assms by (simp add: distinct_card)
qed

lemma score_if:
  "(if (u::nat) > 0 then (of_nat s / of_nat u :: rat) else 0) = of_nat s / of_nat u"
  by simp

lemma jaccardSimilarityStandard_spec:
  assumes "distinct a" "distinct b"
  shows "jaccardSimilarityStandard a b =
    \<lparr> score = of_nat (card (set a \<inter> set b)) / of_nat (card (set a \<union> set b)),
      shared = card (set a \<inter> set b), unionSize = card (set a \<union> set b) \<rparr>"
  unfolding jaccardSimilarityStandard_def Let_def standard_shared [OF assms(1)]
    card_union_lists [OF assms] score_if ..

lemma jaccardSimilarityOptimized_spec:
  assumes "distinct a" "distinct b"
  shows "jaccardSimilarityOptimized a b =
    \<lparr> score = of_nat (card (set a \<inter> set b)) / of_nat (card (set a \<union> set b)),
      shared = card (set a \<inter> set b), unionSize = card (set a \<union> set b) \<rparr>"
  unfolding jaccardSimilarityOptimized_def Let_def optimized_shared [OF assms] length_sort
    card_union_lists [OF assms] score_if ..

lemma jaccardSimilarity_spec:
  assumes "distinct a" "distinct b"
  shows "jaccardSimilarity a b =
    \<lparr> score = of_nat (card (set a \<inter> set b)) / of_nat (card (set a \<union> set b)),
      shared = card (set a \<inter> set b), unionSize = card (set a \<union> set b) \<rparr>"
  using assms
  by (simp add: jaccardSimilarity_def Let_def jaccardSimilarityStandard_spec
      jaccardSimilarityOptimized_spec)

text \<open>
  Claim C10.  For sets \<open>a\<close> and \<open>b\<close> (lists without duplicates),
  \<open>jaccardSimilarityStandard\<close> and \<open>jaccardSimilarityOptimized\<close> return the same record
  (same \<open>score\<close>, \<open>shared\<close> and \<open>unionSize\<close>), so \<open>jaccardSimilarity\<close> returns that record
  whichever side of its size threshold is taken.
\<close>

theorem jaccard_standard_eq_optimized:
  assumes "distinct a" and "distinct b"
  shows "jaccardSimilarityStandard a b = jaccardSimilarityOptimized a b
       \<and> jaccardSimilarity a b = jaccardSimilarityStandard a b
       \<and> jaccardSimilarity a b = jaccardSimilarityOptimized a b"
  using assms
  by (simp add: jaccardSimilarity_spec jaccardSimilarityStandard_spec
      jaccardSimilarityOptimized_spec)

theorem jaccard_standard_eq_optimized_witness:
  "distinct [''a'', ''b'', ''c''] \<and> distinct [''b'', ''c'', ''d'']
   \<and> jaccardSimilarityOptimized [''a'', ''b'', ''c''] [''b'', ''c'', ''d'']
       = \<lparr> score = 1 / 2, shared = 2, unionSize = 4 \<rparr>"
proof -
  have h1: "distinct [''a'', ''b'', ''c'']" and h2: "distinct [''b'', ''c'', ''d'']"
    by simp_all
  have "jaccardSimilarityStandard [''a'', ''b'', ''c''] [''b'', ''c'', ''d'']
       = \<lparr> score = 1 / 2, shared = 2, unionSize = 4 \<rparr>"
    by (simp add: jaccardSimilarityStandard_def)
  then show ?thesis
    using h1 h2 jaccard_standard_eq_optimized [OF h1 h2] by simp
qed

text \<open>
  Claim C2.  For sets \<open>a\<close> and \<open>b\<close>, \<open>jaccardSimilarity a b\<close> returns
  \<open>shared = |a \<inter> b|\<close>, \<open>unionSize = |a \<union> b|\<close> and \<open>score = |a \<inter> b| / |a \<union> b|\<close>, with
  score 0 when the union is empty; the result is symmetric in its arguments, the score of
  a non-empty set with itself is 1, and the score against the empty set is 0.
\<close>

theorem jaccardSimilarity_correct:
  assumes "distinct a" and "distinct b"
  shows "shared (jaccardSimilarity a b) = card (set a \<inter> set b)
       \<and> unionSize (jaccardSimilarity a b) = card (set a \<union> set b)
       \<and> score (jaccardSimilarity a b) =
            (if card (set a \<union> set b) = 0 then 0
             else of_nat (card (set a \<inter> set b)) / of_nat (card (set a \<union> set b)))
       \<and> jaccardSimilarity a b = jaccardSimilarity b a
       \<and> (a \<noteq> [] \<longrightarrow> score (jaccardSimilarity a a) = 1)
       \<and> score (jaccardSimilarity a []) = 0
       \<and> score (jaccardSimilarity [] a) = 0"
proof -
  have sym: "jaccardSimilarity a b = jaccardSimilarity b a"
    using assms by (simp add: jaccardSimilarity_spec Int_commute Un_commute)
  have self: "a \<noteq> [] \<longrightarrow> score (jaccardSimilarity a a) = 1"
  proof
    assume "a \<noteq> []"
    then have "card (set a) \<noteq> 0" by simp
    then show "score (jaccardSimilarity a a) = 1"
      using assms by (simp add: jaccardSimilarity_spec)
  qed
  show ?thesis
    using assms sym self by (simp add: jaccardSimilarity_spec)
qed

theorem jaccardSimilarity_correct_witness:
  "distinct [''a'', ''b'', ''c''] \<and> distinct [''b'', ''c'', ''d'']
   \<and> jaccardSimilarity [''a'', ''b'', ''c''] [''b'', ''c'', ''d'']
       = \<lparr> score = 1 / 2, shared = 2, unionSize = 4 \<rparr>
   \<and> jaccardSimilarity [''b'', ''c'', ''d''] [''a'', ''b'', ''c'']
       = \<lparr> score = 1 / 2, shared = 2, unionSize = 4 \<rparr>
   \<and> [''a'', ''b'', ''c''] \<noteq> []
   \<and> score (jaccardSimilarity [''a'', ''b'', ''c''] [''a'', ''b'', ''c'']) = 1"
proof -
  have h1: "distinct [''a'', ''b'', ''c'']" and h2: "distinct [''b'', ''c'', ''d'']"
    by simp_all
  have v: "jaccardSimilarity [''a'', ''b'', ''c''] [''b'', ''c'', ''d'']
       = \<lparr> score = 1 / 2, shared = 2, unionSize = 4 \<rparr>"
    by (simp add: jaccardSimilarity_def jaccardSimilarityStandard_def)
  show ?thesis
    using h1 h2 v jaccardSimilarity_correct [OF h1 h2] by simp
qed

section \<open>Soundness of the size-only pre-filter\<close>

lemma jaccard_score_le_size_bound:
  assumes "distinct c" "distinct B" "c \<noteq> [] \<or> B \<noteq> []"
  shows "score (jaccardSimilarity B c)
    \<le> of_nat (min (length c) (length B)) / of_nat (max (length c) (length B))"
proof -
  let ?s = "card (set B \<inter> set c)" and ?u = "card (set B \<union> set c)"
  have lc: "length c = card (set c)" and lB: "length B = card (set B)"
    using assms by (simp_all add: distinct_card)
  have "?s \<le> card (set c)" "?s \<le> card (set B)"
    by (simp_all add: card_mono)
  then have s_le: "?s \<le> min (length c) (length B)"
    by (simp add: lc lB)
  have "card (set c) \<le> ?u" "card (set B) \<le> ?u"
    by (simp_all add: card_mono)
  then have M_le: "max (length c) (length B) \<le> ?u"
    by (simp add: lc lB)
  have M_pos: "0 < max (length c) (length B)"
    using assms(3) by (auto simp: max_def)
  have "(of_nat ?s :: rat) / of_nat ?u
      \<le> of_nat (min (length c) (length B)) / of_nat (max (length c) (length B))"
  proof (rule frac_le)
    show "(0::rat) \<le> of_nat (min (length c) (length B))" by simp
    show "(of_nat ?s :: rat) \<le> of_nat (min (length c) (length B))"
      using s_le by (simp only: of_nat_le_iff)
    show "(0::rat) < of_nat (max (length c) (length B))"
      using M_pos by (simp only: of_nat_0_less_iff)
    show "(of_nat (max (length c) (length B)) :: rat) \<le> of_nat ?u"
      using M_le by (simp only: of_nat_le_iff)
  qed
  then show ?thesis
    using assms by (simp add: jaccardSimilarity_spec)
qed

lemma jaccard_score_empty:
  assumes "distinct c" "distinct B" "c = [] \<or> B = []"
  shows "score (jaccardSimilarity B c) = 0"
  using assms by (auto simp: jaccardSimilarity_spec)

text \<open>
  Claim C4, as amended.  The size-only pre-filter is sound for a positive threshold, and
  for any threshold when both sets are non-empty: whenever
  \<open>canMeetThreshold |c| |B| t\<close> is false and (\<open>0 < t\<close> or both sets are non-empty), the
  exact score computed by \<open>jaccardSimilarity\<close> for sets of these sizes is below \<open>t\<close>; and
  for sets that are not both empty, \<open>min |c| |B| / max |c| |B|\<close> bounds the exact score from
  above.
\<close>

theorem canMeetThreshold_sound:
  assumes "distinct c" and "distinct B"
  shows "(\<not> canMeetThreshold (length c) (length B) t \<and> (0 < t \<or> (c \<noteq> [] \<and> B \<noteq> []))
            \<longrightarrow> score (jaccardSimilarity B c) < t)
       \<and> (c \<noteq> [] \<or> B \<noteq> [] \<longrightarrow>
            score (jaccardSimilarity B c)
              \<le> of_nat (min (length c) (length B)) / of_nat (max (length c) (length B)))"
proof (intro conjI impI)
  assume "c \<noteq> [] \<or> B \<noteq> []"
  then show "score (jaccardSimilarity B c)
      \<le> of_nat (min (length c) (length B)) / of_nat (max (length c) (length B))"
    using assms by (rule jaccard_score_le_size_bound [rotated 2])
next
  assume h: "\<not> canMeetThreshold (length c) (length B) t \<and> (0 < t \<or> (c \<noteq> [] \<and> B \<noteq> []))"
  show "score (jaccardSimilarity B c) < t"
  proof (cases "c = [] \<or> B = []")
    case True
    then have "0 < t" using h by auto
    then show ?thesis using jaccard_score_empty [OF assms True] by simp
  next
    case False
    then have "of_nat (min (length c) (length B)) / of_nat (max (length c) (length B)) < t"
      using h by (simp add: canMeetThreshold_def Let_def not_le)
    moreover have "score (jaccardSimilarity B c)
        \<le> of_nat (min (length c) (length B)) / of_nat (max (length c) (length B))"
      using False by (intro jaccard_score_le_size_bound assms) simp
    ultimately show ?thesis by simp
  qed
qed

theorem canMeetThreshold_sound_witness:
  "distinct [''x''] \<and> distinct [''a'', ''b'', ''c'']
   \<and> \<not> canMeetThreshold (length [''x'']) (length [''a'', ''b'', ''c'']) (1 / 2)
   \<and> (0::rat) < 1 / 2 \<and> [''x''] \<noteq> [] \<and> [''a'', ''b'', ''c''] \<noteq> []
   \<and> score (jaccardSimilarity [''a'', ''b'', ''c''] [''x'']) < 1 / 2
   \<and> score (jaccardSimilarity [''a'', ''b'', ''c''] [''x'']) \<le> 1 / 3"
proof -
  have h1: "distinct [''x'']" and h2: "distinct [''a'', ''b'', ''c'']"
    by simp_all
  have h3: "\<not> canMeetThreshold (length [''x'']) (length [''a'', ''b'', ''c'']) (1 / 2)"
    by (simp add: canMeetThreshold_def)
  show ?thesis
    using h1 h2 h3 canMeetThreshold_sound [OF h1 h2, of "1 / 2"] by simp
qed

text \<open>
  The claim as stated, for any threshold, fails at the threshold 0 with an empty candidate
  set: \<open>canMeetThreshold\<close> answers false because a size is 0, while the exact score, 0, is
  not below the threshold.
\<close>

theorem canMeetThreshold_sound_counterexample:
  "distinct ([] :: string list) \<and> distinct [''a'']
   \<and> \<not> canMeetThreshold (length ([] :: string list)) (length [''a'']) 0
   \<and> \<not> score (jaccardSimilarity [''a''] ([] :: string list)) < 0"
  by (simp add: canMeetThreshold_def jaccardSimilarity_def jaccardSimilarityStandard_def)

section \<open>The bounded top-K selector\<close>

lemma siftDownChoice_range:
  "siftDownChoice heap i \<noteq> i \<Longrightarrow> i < siftDownChoice heap i \<and> siftDownChoice heap i < length heap"
  by (auto simp: siftDownChoice_def Let_def split: if_splits)

lemma length_heapSwap [simp]: "length (heapSwap heap i j) = length heap"
  by (simp add: heapSwap_def Let_def)

lemma par_less: "0 < j \<Longrightarrow> par j < j"
  by (simp add: par_def)



lemma mset_heapSwap: "i < length h \<Longrightarrow> p < length h \<Longrightarrow> mset (heapSwap h i p) = mset h"
  by (simp add: heapSwap_def Let_def mset_swap)




lemma heapSiftUp_mset: "i < length h \<Longrightarrow> mset (heapSiftUp h i) = mset h"
proof (induction h i rule: heapSiftUp.induct)
  case (1 heap i)
  show ?case
  proof (cases "0 < i \<and> \<not> jaccard (heap ! par i) \<le> jaccard (heap ! i)")
    case False
    then have "heapSiftUp heap i = heap"
      by (subst heapSiftUp.simps) (auto simp: par_def Let_def)
    then show ?thesis by simp
  next
    case True
    then have e: "heapSiftUp heap i = heapSiftUp (heapSwap heap i (par i)) (par i)"
      by (subst heapSiftUp.simps) (simp add: par_def Let_def)
    have p: "par i < length heap" using True "1.prems"(1) par_less [of i] by simp
    then show ?thesis
      using "1.IH" [of "par i"] True e "1.prems" by (simp add: par_def mset_heapSwap)
  qed
qed








lemma heapSiftDown_mset: "i < length h \<Longrightarrow> mset (heapSiftDown h i) = mset h"
proof (induction h i rule: heapSiftDown.induct)
  case (1 heap i)
  show ?case
  proof (cases "siftDownChoice heap i = i")
    case True
    then have "heapSiftDown heap i = heap"
      by (subst heapSiftDown.simps) (simp add: Let_def)
    then show ?thesis by simp
  next
    case False
    then have e: "heapSiftDown heap i
        = heapSiftDown (heapSwap heap i (siftDownChoice heap i)) (siftDownChoice heap i)"
      by (subst heapSiftDown.simps) (simp add: Let_def)
    have "siftDownChoice heap i < length heap" using siftDownChoice_range [OF False] by simp
    then show ?thesis
      using "1.IH" [OF refl False] "1.prems" e by (simp add: mset_heapSwap)
  qed
qed




lemma heapPushBounded_mset:
  "mset (heapPushBounded K h x) =
     (if length h < K then add_mset x (mset h)
      else if K = 0 \<or> jaccard x \<le> jaccard (h ! 0) then mset h
      else add_mset x (mset h - {#h ! 0#}))"
proof -
  have "mset (heapSiftUp (h @ [x]) (length h)) = add_mset x (mset h)"
    using heapSiftUp_mset [of "length h" "h @ [x]"] by simp
  moreover have "h \<noteq> [] \<Longrightarrow> mset (heapSiftDown (h[0 := x]) 0) = add_mset x (mset h - {#h ! 0#})"
    using heapSiftDown_mset [of 0 "h[0 := x]"] by (simp add: mset_update)
  moreover have "\<not> length h < K \<Longrightarrow> 0 < K \<Longrightarrow> h \<noteq> []" by auto
  ultimately show ?thesis
    by (auto simp: heapPushBounded_def Let_def)
qed













section \<open>Sorting and maps\<close>

lemma set_insort_cmp: "set (insort_cmp cmp x xs) = insert x (set xs)"
  by (induction xs) auto

lemma length_insort_cmp: "length (insort_cmp cmp x xs) = Suc (length xs)"
  by (induction xs) auto

lemma mset_insort_cmp: "mset (insort_cmp cmp x xs) = add_mset x (mset xs)"
  by (induction xs) auto

lemma set_Array_sort: "set (Array_sort cmp xs) = set xs"
  by (induction xs) (auto simp: Array_sort_def set_insort_cmp)

lemma length_Array_sort: "length (Array_sort cmp xs) = length xs"
  by (induction xs) (auto simp: Array_sort_def length_insort_cmp)

lemma mset_Array_sort: "mset (Array_sort cmp xs) = mset xs"
  by (induction xs) (auto simp: Array_sort_def mset_insort_cmp)

lemma sorted_insort_cmp:
  assumes total: "\<And>a b. cmp a b \<le> 0 \<or> cmp b a \<le> 0"
    and trans: "\<And>a b c. cmp a b \<le> 0 \<Longrightarrow> cmp b c \<le> 0 \<Longrightarrow> cmp a c \<le> 0"
  shows "sorted_wrt (\<lambda>a b. cmp a b \<le> 0) xs
    \<Longrightarrow> sorted_wrt (\<lambda>a b. cmp a b \<le> 0) (insort_cmp cmp x xs)"
proof (induction xs)
  case Nil
  then show ?case by simp
next
  case (Cons y ys)
  show ?case
  proof (cases "cmp x y \<le> 0")
    case True
    then have "\<forall>z \<in> set ys. cmp x z \<le> 0" using Cons.prems trans by auto
    then show ?thesis using True Cons.prems by simp
  next
    case False
    then have "cmp y x \<le> 0" using total by blast
    then show ?thesis using False Cons by (auto simp: set_insort_cmp)
  qed
qed

lemma sorted_Array_sort:
  assumes "\<And>a b. cmp a b \<le> 0 \<or> cmp b a \<le> 0"
    and "\<And>a b c. cmp a b \<le> 0 \<Longrightarrow> cmp b c \<le> 0 \<Longrightarrow> cmp a c \<le> 0"
  shows "sorted_wrt (\<lambda>a b. cmp a b \<le> 0) (Array_sort cmp xs)"
proof (induction xs)
  case Nil
  show ?case by (simp add: Array_sort_def)
next
  case (Cons x xs)
  have "Array_sort cmp (x # xs) = insort_cmp cmp x (Array_sort cmp xs)"
    by (simp add: Array_sort_def)
  then show ?case using sorted_insort_cmp [of cmp, OF assms] Cons by simp
qed

section \<open>The bitset fast path\<close>





section \<open>The query is excluded from its own results\<close>

lemma heapPushBounded_subset: "set (heapPushBounded K h x) \<subseteq> insert x (set h)"
proof -
  have "mset (heapPushBounded K h x) \<subseteq># add_mset x (mset h)"
    by (simp add: heapPushBounded_mset diff_subset_eq_self subset_mset.add_increasing)
  then have "set_mset (mset (heapPushBounded K h x)) \<subseteq> set_mset (add_mset x (mset h))"
    by (rule set_mset_mono)
  then show ?thesis by simp
qed

lemma heapPushBounded_list_all:
  "list_all P h \<Longrightarrow> P x \<Longrightarrow> list_all P (heapPushBounded K h x)"
  using heapPushBounded_subset [of K h x] by (auto simp: list_all_iff)

lemma fst_set_Map_set: "fst ` set (Map_set m k v) = insert k (fst ` set m)"
  by (induction m) auto

lemma Map_set_list_all:
  "list_all (\<lambda>p. P (fst p)) m \<Longrightarrow> P k \<Longrightarrow> list_all (\<lambda>p. P (fst p)) (Map_set m k v)"
  by (induction m) auto

lemma bitsetFastPath_name:
  "bitsetFastPath E base baseBitset cand depSet = Some item \<Longrightarrow> name item = cand"
  by (auto simp: bitsetFastPath_def Let_def mkItem_def split: if_splits sum.splits)

lemma evaluateCandidate_list_all:
  assumes "list_all (\<lambda>r. P (name r)) (st_heap st)"
    and "normalizePackageName cand \<noteq> normalizePackageName pkg \<Longrightarrow> P cand"
  shows "list_all (\<lambda>r. P (name r))
           (st_heap (evaluateCandidate E pkg limit base baseBitset maxLive cand st))"
proof (cases "normalizePackageName cand = normalizePackageName pkg")
  case True
  then show ?thesis using assms by (simp add: evaluateCandidate_def)
next
  case False
  then have P: "P cand" using assms by simp
  have push: "list_all (\<lambda>r. P (name r)) (heapPushBounded limit (st_heap st) item)"
    if "name item = cand" for item
    using that assms(1) P by (intro heapPushBounded_list_all) simp_all
  show ?thesis
    using False assms(1) push bitsetFastPath_name [of E base baseBitset cand]
    by (auto simp: evaluateCandidate_def Let_def mkItem_def split: option.splits if_splits)
qed

lemma evalBatch_list_all:
  assumes "list_all (\<lambda>r. P (name r)) (st_heap st)"
    and "\<And>cand. normalizePackageName cand \<noteq> normalizePackageName pkg \<Longrightarrow> P cand"
  shows "list_all (\<lambda>r. P (name r))
           (st_heap (fst (evalBatch E pkg limit base baseBitset maxLive cands st)))"
  using assms(1)
proof (induction cands arbitrary: st)
  case Nil
  then show ?case by simp
next
  case (Cons cand rest)
  show ?case
  proof (cases "timedOut E cand")
    case True
    then show ?thesis using Cons.prems by simp
  next
    case False
    then show ?thesis
      using Cons.IH [OF evaluateCandidate_list_all [OF Cons.prems assms(2)]] by simp
  qed
qed

lemma scoreCandidates_list_all:
  assumes "list_all (\<lambda>r. P (name r)) (st_heap st)"
    and "\<And>cand. normalizePackageName cand \<noteq> normalizePackageName pkg \<Longrightarrow> P cand"
  shows "list_all (\<lambda>r. P (name r))
           (st_heap (scoreCandidates E pkg limit base baseBitset maxLive candArray st))"
  using assms
proof (induction E pkg limit base baseBitset maxLive candArray st rule: scoreCandidates.induct)
  case (1 E pkg limit base baseBitset maxLive candArray st)
  show ?case
  proof (cases "candArray = []")
    case True
    then show ?thesis using "1.prems"(1) by (subst scoreCandidates.simps) simp
  next
    case False
    obtain st' rejected where eb:
      "evalBatch E pkg limit base baseBitset maxLive (take EARLY_EXIT_BATCH_SIZE candArray) st
        = (st', rejected)"
      by (cases "evalBatch E pkg limit base baseBitset maxLive (take EARLY_EXIT_BATCH_SIZE candArray) st")
    have st': "list_all (\<lambda>r. P (name r)) (st_heap st')"
      using evalBatch_list_all [of P st pkg E limit base baseBitset maxLive
          "take EARLY_EXIT_BATCH_SIZE candArray", OF "1.prems"] eb by simp
    show ?thesis
    proof (cases "rejected \<or> checkEarlyExit limit st'")
      case True
      then have "scoreCandidates E pkg limit base baseBitset maxLive candArray st = st'"
        using False eb by (subst scoreCandidates.simps) auto
      then show ?thesis using st' by simp
    next
      case stop: False
      then have "scoreCandidates E pkg limit base baseBitset maxLive candArray st
          = scoreCandidates E pkg limit base baseBitset maxLive
              (drop EARLY_EXIT_BATCH_SIZE candArray) st'"
        using False eb by (subst scoreCandidates.simps) auto
      moreover have "list_all (\<lambda>r. P (name r))
          (st_heap (scoreCandidates E pkg limit base baseBitset maxLive
              (drop EARLY_EXIT_BATCH_SIZE candArray) st'))"
        using "1.IH" [OF False eb [symmetric] refl _ _ st' "1.prems"(2)] stop by simp
      ultimately show ?thesis by simp
    qed
  qed
qed

lemma relaxedPass_list_all:
  assumes "list_all (\<lambda>r. P (name r)) alt"
    and "\<And>cand. normalizePackageName cand \<noteq> normalizePackageName pkg \<Longrightarrow> P cand"
  shows "list_all (\<lambda>r. P (name r)) (relaxedPass E pkg base cands alt)"
  using assms(1)
proof (induction cands arbitrary: alt)
  case Nil
  then show ?case by simp
next
  case (Cons cand rest)
  show ?case
  proof (cases "normalizePackageName cand = normalizePackageName pkg")
    case True
    then show ?thesis using Cons by simp
  next
    case False
    then have "P cand" by (rule assms(2))
    then have "list_all (\<lambda>r. P (name r)) (alt @ [mkItem cand j s])" for j s
      using Cons.prems by (simp add: mkItem_def)
    then show ?thesis
      using False Cons by (simp add: Let_def split: option.splits)
  qed
qed

lemma nameBasedLoop_list_all:
  assumes "list_all (\<lambda>r. P (name r)) acc"
    and "\<And>pop. normalizePackageName pop \<noteq> lower \<Longrightarrow> P pop"
  shows "list_all (\<lambda>r. P (name r)) (nameBasedLoop lower mainName limit pops acc)"
  using assms(1)
proof (induction pops arbitrary: acc)
  case Nil
  then show ?case by simp
next
  case (Cons pop rest)
  show ?case
  proof (cases "normalizePackageName pop = lower")
    case True
    then show ?thesis using Cons by simp
  next
    case False
    then have "P pop" by (rule assms(2))
    then have "list_all (\<lambda>r. P (name r)) (acc @ [mkItem pop j s])" for j s
      using Cons.prems by (simp add: mkItem_def)
    then show ?thesis
      using False Cons by (simp add: Let_def)
  qed
qed

lemma similarNamesLoop_list_all:
  assumes "list_all P acc"
    and "\<And>pop. normalizePackageName pop \<noteq> lower \<Longrightarrow> P pop"
  shows "list_all P (similarNamesLoop E pkg lower mainName limit pops acc)"
  using assms(1)
proof (induction pops arbitrary: acc)
  case Nil
  then show ?case by simp
next
  case (Cons pop rest)
  show ?case
  proof (cases "normalizePackageName pop = lower")
    case True
    then show ?thesis using Cons by simp
  next
    case False
    then have "P pop" by (rule assms(2))
    then have "list_all P (acc @ [pop])" "list_all P ((acc @ [pop]) @ [pop])"
      using Cons.prems by simp_all
    then show ?thesis
      using False Cons by (simp add: Let_def split: option.splits)
  qed
qed

lemma cooccurNamesLoop_list_all:
  assumes "list_all P acc"
    and "\<And>pop. normalizePackageName pop \<noteq> lower \<Longrightarrow> P pop"
  shows "list_all P (cooccurNamesLoop lower mainName limit pops acc)"
  using assms(1)
proof (induction pops arbitrary: acc)
  case Nil
  then show ?case by simp
next
  case (Cons pop rest)
  show ?case
  proof (cases "normalizePackageName pop = lower")
    case True
    then show ?thesis using Cons by simp
  next
    case False
    then have "P pop" by (rule assms(2))
    then have "list_all P (acc @ [pop])"
      using Cons.prems by simp
    then show ?thesis
      using False Cons by (simp add: Let_def)
  qed
qed

lemma forwardDepsCheck_list_all:
  assumes "list_all (\<lambda>p. P (fst p)) similar"
    and "\<And>candidate. normalizePackageName candidate \<noteq> normalizedPkg \<Longrightarrow> P candidate"
  shows "list_all (\<lambda>p. P (fst p)) (forwardDepsCheck E normalizedPkg pkgDepsSet cands similar)"
  using assms(1)
proof (induction cands arbitrary: similar)
  case Nil
  then show ?case by simp
next
  case (Cons candidate rest)
  show ?case
  proof (cases "normalizePackageName candidate = normalizedPkg")
    case True
    then show ?thesis using Cons by simp
  next
    case False
    then have "P candidate" by (rule assms(2))
    then have "list_all (\<lambda>p. P (fst p)) (Map_set similar candidate v)" for v
      using Cons.prems by (rule Map_set_list_all [rotated])
    then show ?thesis
      using False Cons by (simp add: Let_def split: option.splits)
  qed
qed

lemma list_all_take: "list_all P xs \<Longrightarrow> list_all P (take n xs)"
  by (auto simp: list_all_iff dest: in_set_takeD)

lemma list_all_Array_sort: "list_all P (Array_sort cmp xs) = list_all P xs"
  by (simp add: list_all_iff set_Array_sort)

lemma computeSimilarNameBasedFallback_list_all:
  assumes "\<And>pop. normalizePackageName pop \<noteq> normalizePackageName pkg \<Longrightarrow> P pop"
  shows "list_all (\<lambda>r. P (name r)) (computeSimilarNameBasedFallback E pkg limit)"
proof -
  have "list_all P (similarNamesLoop E pkg (normalizePackageName pkg)
      (mainNameOf (normalizePackageName pkg)) limit (popularPackages E) [])"
    by (rule similarNamesLoop_list_all) (simp_all add: assms)
  then have "list_all P (take limit (similarNamesLoop E pkg (normalizePackageName pkg)
      (mainNameOf (normalizePackageName pkg)) limit (popularPackages E) []))"
    by (rule list_all_take)
  then show ?thesis
    by (auto simp: computeSimilarNameBasedFallback_def Let_def mkItem_def list_all_iff)
qed

lemma computeSimilarFromForwardDeps_list_all:
  assumes "\<And>pop. normalizePackageName pop \<noteq> normalizePackageName pkg \<Longrightarrow> P pop"
  shows "list_all (\<lambda>r. P (name r)) (computeSimilarFromForwardDeps E pkg limit)"
proof -
  note fb = computeSimilarNameBasedFallback_list_all [of pkg P E limit, OF assms]
  have keys: "list_all (\<lambda>p. P (fst p))
      (forwardDepsCheck E (normalizePackageName pkg) pkgDepsSet cands [])" for pkgDepsSet cands
    by (rule forwardDepsCheck_list_all) (simp_all add: assms)
  have items: "list_all (\<lambda>r. P (name r))
      (take limit (Array_sort cmp (filter Q
         (map (\<lambda>(nm, data). mkItem nm (f data) (g data))
            (forwardDepsCheck E (normalizePackageName pkg) pkgDepsSet cands [])))))"
    for cmp Q f g pkgDepsSet cands
    using keys [of pkgDepsSet cands]
    by (fastforce simp: list_all_iff set_Array_sort mkItem_def dest!: in_set_takeD)
  show ?thesis
    unfolding computeSimilarFromForwardDeps_def Let_def
    using fb items by (simp split: option.splits)
qed

lemma finalFallback_list_all:
  assumes "\<And>pop. normalizePackageName pop \<noteq> normalizePackageName pkg \<Longrightarrow> P pop"
  shows "list_all (\<lambda>r. P (name r)) (finalFallback E pkg limit base sortedCandidates)"
proof -
  have a: "list_all (\<lambda>r. P (name r)) (take limit (Array_sort cmpJaccard (relaxedPass E pkg base cands [])))"
    for cands
    by (intro list_all_take) (simp add: list_all_Array_sort relaxedPass_list_all assms)
  have b: "list_all (\<lambda>r. P (name r))
      (take limit (nameBasedLoop (normalizePackageName pkg) mainName limit pops []))" for mainName pops
    by (intro list_all_take nameBasedLoop_list_all) (simp_all add: assms)
  show ?thesis
    unfolding finalFallback_def Let_def using a b by simp
qed

text \<open>
  Claim C6.  Whatever the environment, the limit and the options, no item of a list
  returned by \<open>computeSimilarOnDemand\<close> for \<open>pkg\<close> has a name that normalizes to the
  normalized name of \<open>pkg\<close>: on the forward-dependency path, the name-based fallback, the
  main scoring path (bitset block included), the relaxed cache-only pass and the inline
  name-based strategy alike.
\<close>

theorem query_excluded_from_similar:
  assumes "computeSimilarOnDemand E pkg limit options = Inr results"
  shows "\<forall>r \<in> set results. normalizePackageName (name r) \<noteq> normalizePackageName pkg"
proof -
  let ?P = "\<lambda>n. normalizePackageName n \<noteq> normalizePackageName pkg"
  have fwd: "list_all (\<lambda>r. ?P (name r)) (computeSimilarFromForwardDeps E pkg limit)"
    by (rule computeSimilarFromForwardDeps_list_all)
  have fin: "list_all (\<lambda>r. ?P (name r)) (finalFallback E pkg limit base sc)" for base sc
    by (rule finalFallback_list_all)
  have main: "list_all (\<lambda>r. ?P (name r))
      (Array_sort cmpJaccard (st_heap (scoreCandidates E pkg limit base bb ml ca
         \<lparr> st_heap = [], st_liveFetches = 0, st_checkedCount = 0 \<rparr>)))" for base bb ml ca
    unfolding list_all_Array_sort by (rule scoreCandidates_list_all) simp_all
  have "list_all (\<lambda>r. ?P (name r)) results"
    using assms fwd fin main
    unfolding computeSimilarOnDemand_def Let_def
    by (auto split: if_splits sum.splits)
  then show ?thesis by (simp add: list_all_iff)
qed

theorem query_excluded_from_similar_witness:
  "computeSimilarOnDemand cachedExampleEnv ''q'' 5 noOptions
     = Inr [mkItem ''cand'' (333333 / 1000000) 1]
   \<and> normalizePackageName ''Q'' = normalizePackageName ''q''
   \<and> normalizePackageName (name (mkItem ''cand'' (333333 / 1000000) 1)) \<noteq> normalizePackageName ''q''"
proof -
  have h: "computeSimilarOnDemand cachedExampleEnv ''q'' 5 noOptions
      = Inr [mkItem ''cand'' (333333 / 1000000) 1]"
    by code_simp
  have q: "normalizePackageName ''Q'' = normalizePackageName ''q''"
    by code_simp
  from query_excluded_from_similar [OF h]
  have "normalizePackageName (name (mkItem ''cand'' (333333 / 1000000) 1)) \<noteq> normalizePackageName ''q''"
    by simp
  then show ?thesis using h q by simp
qed

section \<open>Length and order of the returned lists\<close>


lemma cmpSharedThenJaccard_le:
  "cmpSharedThenJaccard a b \<le> 0 \<longleftrightarrow>
     sharedDependents b < sharedDependents a
     \<or> (sharedDependents b = sharedDependents a \<and> jaccard b \<le> jaccard a)"
proof (cases "sharedDependents b = sharedDependents a")
  case True
  then show ?thesis by (simp add: cmpSharedThenJaccard_def)
next
  case False
  have "(of_nat (sharedDependents b) - of_nat (sharedDependents a) \<le> (0::rat))
      \<longleftrightarrow> sharedDependents b \<le> sharedDependents a"
    by simp
  then show ?thesis using False by (auto simp: cmpSharedThenJaccard_def)
qed

lemma cmpDirectFirst_le:
  "cmpDirectFirst S a b \<le> 0 \<longleftrightarrow>
     (normalizePackageName (name a) \<in> set S \<and> normalizePackageName (name b) \<notin> set S)
     \<or> ((normalizePackageName (name a) \<in> set S) = (normalizePackageName (name b) \<in> set S)
         \<and> cmpSharedThenJaccard a b \<le> 0)"
  by (auto simp: cmpDirectFirst_def cmpSharedThenJaccard_def Let_def)


lemma sorted_cmpSharedThenJaccard:
  "sorted_wrt (\<lambda>a b. cmpSharedThenJaccard a b \<le> 0) (Array_sort cmpSharedThenJaccard xs)"
  by (rule sorted_Array_sort) (auto simp: cmpSharedThenJaccard_le)

lemma sorted_cmpDirectFirst:
  "sorted_wrt (\<lambda>a b. cmpDirectFirst S a b \<le> 0) (Array_sort (cmpDirectFirst S) xs)"
  by (rule sorted_Array_sort) (auto simp: cmpDirectFirst_le cmpSharedThenJaccard_le)

lemma toFixed6_mono: "x \<le> y \<Longrightarrow> toFixed6 x \<le> toFixed6 y"
  unfolding toFixed6_def
  by (intro divide_right_mono) (simp_all add: floor_mono)








lemma sorted_wrt_all: "(\<And>x y. x \<in> set xs \<Longrightarrow> y \<in> set xs \<Longrightarrow> R x y) \<Longrightarrow> sorted_wrt R xs"
  by (induction xs) auto

lemma descJ_const:
  "sorted_wrt (\<lambda>a b. jaccard b \<le> jaccard a) (map (\<lambda>n. mkItem n c s) xs)"
  by (rule sorted_wrt_all) (auto simp: mkItem_def)

lemma descJ_take:
  "sorted_wrt (\<lambda>a b. jaccard b \<le> jaccard a) xs
   \<Longrightarrow> sorted_wrt (\<lambda>a b. jaccard b \<le> jaccard a) (take n xs)"
  by (rule sorted_wrt_take)

lemma descJ_of_shared:
  assumes srt: "sorted_wrt (\<lambda>a b. cmpSharedThenJaccard a b \<le> 0) xs"
    and rel: "list_all (\<lambda>r. jaccard r = toFixed6 (of_nat (sharedDependents r) / t)) xs"
    and t: "0 \<le> t"
  shows "sorted_wrt (\<lambda>a b. jaccard b \<le> jaccard a) xs"
proof (rule sorted_wrt_mono_rel [OF _ srt])
  fix a b assume a: "a \<in> set xs" and b: "b \<in> set xs" and le: "cmpSharedThenJaccard a b \<le> 0"
  have ja: "jaccard a = toFixed6 (of_nat (sharedDependents a) / t)"
    and jb: "jaccard b = toFixed6 (of_nat (sharedDependents b) / t)"
    using rel a b by (auto simp: list_all_iff)
  from le have "sharedDependents b \<le> sharedDependents a \<or> jaccard b \<le> jaccard a"
    by (auto simp: cmpSharedThenJaccard_le)
  then show "jaccard b \<le> jaccard a"
  proof
    assume "sharedDependents b \<le> sharedDependents a"
    then have "(of_nat (sharedDependents b) :: rat) / t \<le> of_nat (sharedDependents a) / t"
      using t by (intro divide_right_mono) simp_all
    then show ?thesis unfolding ja jb by (rule toFixed6_mono)
  qed
qed
















lemma computeCooccurrenceNameBasedFallback_ranked:
  "length (computeCooccurrenceNameBasedFallback E pkg limit) \<le> limit
   \<and> sorted_wrt (\<lambda>a b. jaccard b \<le> jaccard a) (computeCooccurrenceNameBasedFallback E pkg limit)"
  by (simp add: computeCooccurrenceNameBasedFallback_def Let_def descJ_const)

lemma Map_set_distinct: "distinct (map fst m) \<Longrightarrow> distinct (map fst (Map_set m k v))"
  by (induction m) (auto simp: fst_set_Map_set)

lemma filter_Map_set_other:
  "\<not> P k \<Longrightarrow> filter (\<lambda>p. P (fst p)) (Map_set m k v) = filter (\<lambda>p. P (fst p)) m"
  by (induction m) auto

lemma cooccurForwardCheck_direct:
  "filter (\<lambda>p. normalizePackageName (fst p) \<in> set S) (cooccurForwardCheck E npkg S pops cooccur)
     = filter (\<lambda>p. normalizePackageName (fst p) \<in> set S) cooccur"
proof (induction pops arbitrary: cooccur)
  case Nil
  show ?case by simp
next
  case (Cons pop rest)
  show ?case
  proof (cases "normalizePackageName pop \<in> set S")
    case True
    then show ?thesis using Cons by (simp add: Let_def)
  next
    case False
    then have "filter (\<lambda>p. normalizePackageName (fst p) \<in> set S) (Map_set cooccur pop v)
        = filter (\<lambda>p. normalizePackageName (fst p) \<in> set S) cooccur" for v
      by (rule filter_Map_set_other [where P = "\<lambda>k. normalizePackageName k \<in> set S"])
    then show ?thesis
      using False Cons by (simp add: Let_def split: option.splits)
  qed
qed

lemma cooccurForwardCheck_keys:
  "fst ` set cooccur \<subseteq> fst ` set (cooccurForwardCheck E npkg S pops cooccur)"
proof (induction pops arbitrary: cooccur)
  case Nil
  show ?case by simp
next
  case (Cons pop rest)
  have "fst ` set cooccur \<subseteq> fst ` set (Map_set cooccur pop v)" for v
    by (auto simp: fst_set_Map_set)
  then have step: "fst ` set cooccur
      \<subseteq> fst ` set (cooccurForwardCheck E npkg S rest (Map_set cooccur pop v))" for v
    using Cons [of "Map_set cooccur pop v"] by blast
  show ?case
    using Cons [of cooccur] step by (simp add: Let_def split: option.splits)
qed

text \<open>The map seeded with the direct dependencies that are popular.\<close>

lemma seed_fold:
  fixes popularSet :: "string list"
  defines "f \<equiv> (\<lambda>dep cooccur. if normalizePackageName dep \<in> set popularSet
                                 then Map_set cooccur dep (1::nat, [dep]) else cooccur)"
  assumes "distinct (map fst acc)" "list_all (\<lambda>p. snd p = (1, [fst p])) acc"
  shows "distinct (map fst (fold f deps acc))
       \<and> list_all (\<lambda>p. snd p = (1, [fst p])) (fold f deps acc)
       \<and> fst ` set (fold f deps acc)
           = fst ` set acc \<union> {d \<in> set deps. normalizePackageName d \<in> set popularSet}"
  using assms(2,3)
proof (induction deps arbitrary: acc)
  case Nil
  then show ?case by simp
next
  case (Cons d deps)
  have a: "distinct (map fst (f d acc))"
    using Cons.prems(1) by (simp add: f_def Map_set_distinct)
  have "list_all (\<lambda>p. snd p = (1, [fst p])) (Map_set acc d (1, [d]))"
    using Cons.prems(2) by (induction acc) auto
  then have b: "list_all (\<lambda>p. snd p = (1, [fst p])) (f d acc)"
    using Cons.prems(2) by (simp add: f_def)
  have c: "fst ` set (f d acc)
      = fst ` set acc \<union> (if normalizePackageName d \<in> set popularSet then {d} else {})"
    by (simp add: f_def fst_set_Map_set)
  show ?case
    using Cons.IH [OF a b] c by (auto split: if_splits)
qed

lemma direct_first_partition:
  "sorted_wrt (\<lambda>a b. P b \<longrightarrow> P a) ys \<Longrightarrow> ys = filter P ys @ filter (\<lambda>x. \<not> P x) ys"
proof (induction ys)
  case Nil
  show ?case by simp
next
  case (Cons y ys)
  show ?case
  proof (cases "P y")
    case True
    then show ?thesis using Cons by simp
  next
    case False
    then have "\<forall>z \<in> set ys. \<not> P z" using Cons.prems by auto
    then have "filter P ys = []" by (simp add: filter_empty_conv)
    then show ?thesis using False Cons by simp
  qed
qed

lemma direct_first_take:
  assumes "sorted_wrt (\<lambda>a b. P b \<longrightarrow> P a) ys" "length (filter P ys) \<le> n" "x \<in> set ys" "P x"
  shows "x \<in> set (take n ys)"
proof -
  have "ys = filter P ys @ filter (\<lambda>x. \<not> P x) ys"
    by (rule direct_first_partition [OF assms(1)])
  then have "take n ys = take n (filter P ys @ filter (\<lambda>x. \<not> P x) ys)" by simp
  also have "\<dots> = filter P ys @ take (n - length (filter P ys)) (filter (\<lambda>x. \<not> P x) ys)"
    using assms(2) by simp
  finally show ?thesis using assms(3,4) by simp
qed


lemma cooccurNamesLoop_subset:
  "set (cooccurNamesLoop lower mainName limit pops acc) \<subseteq> set acc \<union> set pops"
proof (induction pops arbitrary: acc)
  case Nil
  show ?case by simp
next
  case (Cons pop rest)
  have "set (cooccurNamesLoop lower mainName limit rest (acc @ [pop])) \<subseteq> set acc \<union> set (pop # rest)"
    using Cons [of "acc @ [pop]"] by auto
  moreover have "set (cooccurNamesLoop lower mainName limit rest acc) \<subseteq> set acc \<union> set (pop # rest)"
    using Cons [of acc] by auto
  ultimately show ?case by (auto simp: Let_def)
qed

lemma computeCooccurrenceNameBasedFallback_popular:
  "name ` set (computeCooccurrenceNameBasedFallback E pkg limit) \<subseteq> set (popularPackages E)"
proof -
  define cs where "cs = cooccurNamesLoop (normalizePackageName pkg)
      (mainNameOf (normalizePackageName pkg)) limit
      (take (min (length (popularPackages E)) MAX_POPULAR_FOR_NAME_BASED) (popularPackages E)) []"
  have sub: "set cs \<subseteq> set (popularPackages E)"
    unfolding cs_def
    using cooccurNamesLoop_subset [of "normalizePackageName pkg"
        "mainNameOf (normalizePackageName pkg)" limit
        "take (min (length (popularPackages E)) MAX_POPULAR_FOR_NAME_BASED) (popularPackages E)" "[]"]
    by (auto dest: in_set_takeD)
  have eq: "computeCooccurrenceNameBasedFallback E pkg limit
      = (if length cs > 0 then map (\<lambda>n. mkItem n NAME_BASED_FALLBACK_SCORE 0) (take limit cs) else [])"
    unfolding computeCooccurrenceNameBasedFallback_def Let_def cs_def ..
  show ?thesis
    unfolding eq using sub by (auto simp: mkItem_def dest: in_set_takeD)
qed

lemma descJ_groups:
  assumes srt: "sorted_wrt (\<lambda>a b. cmpDirectFirst S a b \<le> 0) xs"
    and rel: "list_all (\<lambda>r. jaccard r =
                toFixed6 (if normalizePackageName (name r) \<in> set S
                          then max (of_nat (sharedDependents r) / t) B
                          else of_nat (sharedDependents r) / t)) xs"
    and t: "0 \<le> t"
  shows "sorted_wrt (\<lambda>a b. jaccard b \<le> jaccard a) (filter (\<lambda>r. normalizePackageName (name r) \<in> set S) xs)
       \<and> sorted_wrt (\<lambda>a b. jaccard b \<le> jaccard a) (filter (\<lambda>r. normalizePackageName (name r) \<notin> set S) xs)"
proof -
  have key: "jaccard b \<le> jaccard a"
    if a: "a \<in> set xs" and b: "b \<in> set xs" and le: "cmpDirectFirst S a b \<le> 0"
      and same: "(normalizePackageName (name a) \<in> set S) = (normalizePackageName (name b) \<in> set S)"
    for a b
  proof -
    have ja: "jaccard a = toFixed6 (if normalizePackageName (name a) \<in> set S
          then max (of_nat (sharedDependents a) / t) B else of_nat (sharedDependents a) / t)"
      and jb: "jaccard b = toFixed6 (if normalizePackageName (name b) \<in> set S
          then max (of_nat (sharedDependents b) / t) B else of_nat (sharedDependents b) / t)"
      using rel a b by (auto simp: list_all_iff)
    from le same have "sharedDependents b \<le> sharedDependents a \<or> jaccard b \<le> jaccard a"
      by (auto simp: cmpDirectFirst_le cmpSharedThenJaccard_le)
    then show ?thesis
    proof
      assume "sharedDependents b \<le> sharedDependents a"
      then have d: "(of_nat (sharedDependents b) :: rat) / t \<le> of_nat (sharedDependents a) / t"
        using t by (intro divide_right_mono) simp_all
      show ?thesis
      proof (cases "normalizePackageName (name a) \<in> set S")
        case True
        then have "jaccard a = toFixed6 (max (of_nat (sharedDependents a) / t) B)"
          "jaccard b = toFixed6 (max (of_nat (sharedDependents b) / t) B)"
          using ja jb same by simp_all
        moreover have "max (of_nat (sharedDependents b) / t) B \<le> max (of_nat (sharedDependents a) / t) B"
          using d by (simp add: max.coboundedI1)
        ultimately show ?thesis by (simp add: toFixed6_mono)
      next
        case False
        then have "jaccard a = toFixed6 (of_nat (sharedDependents a) / t)"
          "jaccard b = toFixed6 (of_nat (sharedDependents b) / t)"
          using ja jb same by simp_all
        then show ?thesis using d by (simp add: toFixed6_mono)
      qed
    qed
  qed
  have grp: "sorted_wrt (\<lambda>a b. jaccard b \<le> jaccard a) (filter P xs)"
    if "\<And>a b. P a \<Longrightarrow> P b
        \<Longrightarrow> (normalizePackageName (name a) \<in> set S) = (normalizePackageName (name b) \<in> set S)" for P
  proof (rule sorted_wrt_mono_rel [OF _ sorted_wrt_filter [OF srt]])
    fix a b assume "a \<in> set (filter P xs)" "b \<in> set (filter P xs)" "cmpDirectFirst S a b \<le> 0"
    then show "jaccard b \<le> jaccard a" using key [of a b] that [of a b] by simp
  qed
  have "sorted_wrt (\<lambda>a b. jaccard b \<le> jaccard a) (filter (\<lambda>r. normalizePackageName (name r) \<in> set S) xs)"
    by (rule grp) simp
  moreover have "sorted_wrt (\<lambda>a b. jaccard b \<le> jaccard a) (filter (\<lambda>r. normalizePackageName (name r) \<notin> set S) xs)"
    by (rule grp) simp
  ultimately show ?thesis by simp
qed


lemma forward_cooccurrence_shape:
  assumes pd: "packageDeps E pkg = Some pkgDeps" and ne: "pkgDeps \<noteq> []"
  shows "\<exists>seed m ys relaxedAll.
      distinct (map fst seed)
    \<and> list_all (\<lambda>p. snd p = (1, [fst p])) seed
    \<and> fst ` set seed = {d \<in> set pkgDeps.
          normalizePackageName d \<in> normalizePackageName ` set (popularPackages E)}
    \<and> filter (\<lambda>p. normalizePackageName (fst p) \<in> normalizePackageName ` set pkgDeps) m = seed
    \<and> ys = Array_sort (cmpDirectFirst (new_Set (map normalizePackageName pkgDeps)))
          (filter (\<lambda>r. normalizePackageName (name r) \<in> normalizePackageName ` set pkgDeps
                     \<or> (sharedDependents r \<ge> 1
                         \<and> jaccard r \<ge> getCooccurForwardDepsRatioThreshold (length pkgDeps)))
             (map (\<lambda>(nm, data). mkItem nm
                     (toFixed6 (if normalizePackageName nm \<in> normalizePackageName ` set pkgDeps
                                then max (of_nat (fst data) / of_nat (length pkgDeps))
                                       DIRECT_DEPENDENCY_BOOST_SCORE
                                else of_nat (fst data) / of_nat (length pkgDeps)))
                     (fst data)) m))
    \<and> relaxedAll = Array_sort cmpSharedThenJaccard
          (filter (\<lambda>r. sharedDependents r \<ge> 1 \<and> jaccard r \<ge> RELAXED_JACCARD_MINIMUM)
             (map (\<lambda>(nm, data). mkItem nm (toFixed6 (of_nat (fst data) / of_nat (length pkgDeps)))
                     (fst data)) m))
    \<and> computeCooccurrenceFromForwardDeps E pkg limit
        = (if length (take limit ys) > 0 then take limit ys
           else if length (take limit relaxedAll) > 0 then take limit relaxedAll
           else computeCooccurrenceNameBasedFallback E pkg limit)"
proof -
  define popularSet where "popularSet = new_Set (map normalizePackageName (popularPackages E))"
  define S where "S = new_Set (map normalizePackageName pkgDeps)"
  define seed where "seed = fold (\<lambda>dep cooccur.
      if normalizePackageName dep \<in> set popularSet
      then Map_set cooccur dep (1::nat, [dep]) else cooccur) pkgDeps []"
  define m where "m = cooccurForwardCheck E (normalizePackageName pkg) S
      (take (min (length (popularPackages E))
         (min (limit * COOCCUR_MULTIPLIER_PER_LIMIT) MAX_PACKAGES_TO_CHECK_COOCCUR))
         (popularPackages E)) seed"
  have setS: "set S = normalizePackageName ` set pkgDeps"
    by (simp add: S_def set_new_Set)
  have setP: "set popularSet = normalizePackageName ` set (popularPackages E)"
    by (simp add: popularSet_def set_new_Set)
  have sf: "distinct (map fst seed) \<and> list_all (\<lambda>p. snd p = (1, [fst p])) seed
      \<and> fst ` set seed = fst ` set ([] :: (string \<times> nat \<times> string list) list)
          \<union> {d \<in> set pkgDeps. normalizePackageName d \<in> set popularSet}"
    unfolding seed_def by (rule seed_fold) simp_all
  have keysS: "\<forall>p \<in> set seed. normalizePackageName (fst p) \<in> set S"
    using sf setS by auto
  have "filter (\<lambda>p. normalizePackageName (fst p) \<in> set S) m
      = filter (\<lambda>p. normalizePackageName (fst p) \<in> set S) seed"
    unfolding m_def by (rule cooccurForwardCheck_direct)
  also have "\<dots> = seed" using keysS by (simp add: filter_id_conv)
  finally have mdir: "filter (\<lambda>p. normalizePackageName (fst p) \<in> set S) m = seed" .
  have eq: "computeCooccurrenceFromForwardDeps E pkg limit
      = (let coRes = take limit (Array_sort (cmpDirectFirst S)
            (filter (\<lambda>r. normalizePackageName (name r) \<in> set S
                     \<or> (sharedDependents r \<ge> 1
                         \<and> jaccard r \<ge> getCooccurForwardDepsRatioThreshold (length pkgDeps)))
             (map (\<lambda>(nm, data). mkItem nm
                     (toFixed6 (if normalizePackageName nm \<in> set S
                                then max (of_nat (fst data) / of_nat (length pkgDeps))
                                       DIRECT_DEPENDENCY_BOOST_SCORE
                                else of_nat (fst data) / of_nat (length pkgDeps)))
                     (fst data)) m)));
             relaxed = take limit (Array_sort cmpSharedThenJaccard
               (filter (\<lambda>r. sharedDependents r \<ge> 1 \<and> jaccard r \<ge> RELAXED_JACCARD_MINIMUM)
                 (map (\<lambda>(nm, data). mkItem nm (toFixed6 (of_nat (fst data) / of_nat (length pkgDeps)))
                     (fst data)) m)))
         in if length coRes > 0 then coRes
            else if length relaxed > 0 then relaxed
            else computeCooccurrenceNameBasedFallback E pkg limit)"
    using pd ne
    by (simp add: computeCooccurrenceFromForwardDeps_def Let_def m_def seed_def S_def popularSet_def)
  show ?thesis
    apply (rule exI [of _ seed], rule exI [of _ m])
    apply (intro exI conjI)
    using sf setP apply simp
    using sf apply simp
    using sf setP apply simp
    using mdir setS apply simp
    apply (rule refl)
    apply (rule refl)
    unfolding eq Let_def setS
    unfolding S_def
    apply (rule refl)
    done
qed


lemma forward_cooccurrence_facts:
  fixes limit :: nat
  assumes pd: "packageDeps E pkg = Some pkgDeps"
  defines "D \<equiv> \<lambda>r :: SimilarItem. normalizePackageName (name r) \<in> normalizePackageName ` set pkgDeps"
  defines "res \<equiv> computeCooccurrenceFromForwardDeps E pkg limit"
  shows "length res \<le> limit
       \<and> sorted_wrt (\<lambda>a b. jaccard b \<le> jaccard a) (filter D res)
       \<and> sorted_wrt (\<lambda>a b. jaccard b \<le> jaccard a) (filter (\<lambda>r. \<not> D r) res)
       \<and> sorted_wrt (\<lambda>a b. D b \<longrightarrow> D a) res
       \<and> (\<forall>d \<in> set pkgDeps.
             normalizePackageName d \<in> normalizePackageName ` set (popularPackages E)
             \<longrightarrow> card {d' \<in> set pkgDeps.
                    normalizePackageName d' \<in> normalizePackageName ` set (popularPackages E)} \<le> limit
             \<longrightarrow> mkItem d (toFixed6 (max (1 / of_nat (length pkgDeps)) DIRECT_DEPENDENCY_BOOST_SCORE)) 1
                   \<in> set res)"
proof (cases "pkgDeps = []")
  case True
  have res: "res = computeCooccurrenceNameBasedFallback E pkg limit"
    using pd True by (simp add: res_def computeCooccurrenceFromForwardDeps_def)
  have noD: "\<not> D r" for r using True by (simp add: D_def)
  show ?thesis
    using computeCooccurrenceNameBasedFallback_ranked [of E pkg limit] True
    by (simp add: res noD sorted_wrt_filter)
next
  case False
  define N where "N = normalizePackageName ` set pkgDeps"
  define S where "S = new_Set (map normalizePackageName pkgDeps)"
  define t :: rat where "t = of_nat (length pkgDeps)"
  define F :: "string \<times> nat \<times> string list \<Rightarrow> SimilarItem" where
    "F = (\<lambda>(nm, data). mkItem nm
           (toFixed6 (if normalizePackageName nm \<in> N
                      then max (of_nat (fst data) / t) DIRECT_DEPENDENCY_BOOST_SCORE
                      else of_nat (fst data) / t)) (fst data))"
  define G :: "string \<times> nat \<times> string list \<Rightarrow> SimilarItem" where
    "G = (\<lambda>(nm, data). mkItem nm (toFixed6 (of_nat (fst data) / t)) (fst data))"
  define Q :: "SimilarItem \<Rightarrow> bool" where "Q = (\<lambda>r. D r \<or> (sharedDependents r \<ge> 1
        \<and> jaccard r \<ge> getCooccurForwardDepsRatioThreshold (length pkgDeps)))"
  define Q' :: "SimilarItem \<Rightarrow> bool" where "Q' = (\<lambda>r. sharedDependents r \<ge> 1 \<and> jaccard r \<ge> RELAXED_JACCARD_MINIMUM)"
  define fb where "fb = computeCooccurrenceNameBasedFallback E pkg limit"
  have setS: "set S = N" by (simp add: S_def N_def set_new_Set)
  have Dset: "D r \<longleftrightarrow> normalizePackageName (name r) \<in> set S" for r
    by (simp add: D_def setS N_def)
  have Deq: "D = (\<lambda>r. normalizePackageName (name r) \<in> set S)"
    by (rule ext) (rule Dset)
  obtain seed m ys relaxedAll where
    sd: "distinct (map fst seed)"
    and sv: "list_all (\<lambda>p. snd p = (1, [fst p])) seed"
    and sk: "fst ` set seed = {d \<in> set pkgDeps.
          normalizePackageName d \<in> normalizePackageName ` set (popularPackages E)}"
    and mdir: "filter (\<lambda>p. normalizePackageName (fst p) \<in> N) m = seed"
    and ys: "ys = Array_sort (cmpDirectFirst S) (filter Q (map F m))"
    and rl: "relaxedAll = Array_sort cmpSharedThenJaccard (filter Q' (map G m))"
    and res: "res = (if length (take limit ys) > 0 then take limit ys
           else if length (take limit relaxedAll) > 0 then take limit relaxedAll
           else fb)"
    using forward_cooccurrence_shape [OF pd False, of limit]
    unfolding N_def S_def t_def F_def G_def Q_def Q'_def D_def fb_def res_def
    by blast
  have t0: "0 \<le> t" by (simp add: t_def)
  have DF: "D (F p) \<longleftrightarrow> normalizePackageName (fst p) \<in> N" for p
    by (cases p) (simp add: D_def F_def N_def mkItem_def)
  have DG: "D (G p) \<longleftrightarrow> normalizePackageName (fst p) \<in> N" for p
    by (cases p) (simp add: D_def G_def N_def mkItem_def)
  have dirF: "filter D (filter Q (map F m)) = map F seed"
  proof -
    have "filter D (filter Q (map F m)) = filter D (map F m)"
      by (simp add: Q_def) (metis (mono_tags, lifting) filter_cong)
    also have "\<dots> = map F (filter (\<lambda>p. normalizePackageName (fst p) \<in> N) m)"
      by (simp add: filter_map comp_def DF)
    finally show ?thesis by (simp add: mdir)
  qed
  have srt: "sorted_wrt (\<lambda>a b. cmpDirectFirst S a b \<le> 0) ys"
    unfolding ys by (rule sorted_cmpDirectFirst)
  have relF: "list_all (\<lambda>r. jaccard r =
                toFixed6 (if normalizePackageName (name r) \<in> set S
                          then max (of_nat (sharedDependents r) / t) DIRECT_DEPENDENCY_BOOST_SCORE
                          else of_nat (sharedDependents r) / t)) ys"
    unfolding ys list_all_Array_sort
    by (auto simp: list_all_iff F_def mkItem_def setS)
  have relG: "list_all (\<lambda>r. jaccard r = toFixed6 (of_nat (sharedDependents r) / t)) relaxedAll"
    unfolding rl list_all_Array_sort
    by (auto simp: list_all_iff G_def mkItem_def)
  have dfirst: "sorted_wrt (\<lambda>a b. D b \<longrightarrow> D a) ys"
    by (rule sorted_wrt_mono_rel [OF _ srt]) (auto simp: cmpDirectFirst_le Dset)
  have lenD: "length (filter D ys) = length seed"
  proof -
    have "mset (filter D ys) = mset (filter D (filter Q (map F m)))"
      unfolding ys by (simp only: mset_filter mset_Array_sort)
    then have "length (filter D ys) = length (filter D (filter Q (map F m)))"
      by (metis size_mset)
    then show ?thesis by (simp only: dirF length_map)
  qed
  have seedlen: "length seed = card {d \<in> set pkgDeps.
          normalizePackageName d \<in> normalizePackageName ` set (popularPackages E)}"
    using sd sk by (metis distinct_card length_map set_map)
  \<comment> \<open>the first list\<close>
  have c1: "length (take limit ys) \<le> limit" by simp
  have c23: "sorted_wrt (\<lambda>a b. jaccard b \<le> jaccard a) (filter D (take limit ys))
       \<and> sorted_wrt (\<lambda>a b. jaccard b \<le> jaccard a) (filter (\<lambda>r. \<not> D r) (take limit ys))"
    using descJ_groups [OF sorted_wrt_take [OF srt] list_all_take [OF relF] t0, of limit]
    by (simp add: Deq)
  have c4: "sorted_wrt (\<lambda>a b. D b \<longrightarrow> D a) (take limit ys)"
    by (rule sorted_wrt_take [OF dfirst])
  \<comment> \<open>when the first list is empty, no entry is a direct dependency\<close>
  have empty: "seed = []" if "take limit ys = []" "0 < limit"
  proof -
    from that have "ys = []" by (cases ys) auto
    then have "length (filter Q (map F m)) = 0"
      unfolding ys by (metis length_Array_sort list.size(3))
    then have "filter Q (map F m) = []" by (simp only: length_0_conv)
    then have "filter D (filter Q (map F m)) = []" by (simp only: filter.simps)
    then show ?thesis by (simp only: dirF map_is_Nil_conv)
  qed
  have r23: "list_all (\<lambda>r. \<not> D r) (take limit relaxedAll)" if "take limit ys = []"
  proof (cases "0 < limit")
    case False then show ?thesis by simp
  next
    case True
    have "seed = []" by (rule empty [OF that True])
    then have "\<forall>p \<in> set m. normalizePackageName (fst p) \<notin> N"
      using mdir by (simp add: filter_empty_conv)
    then have "list_all (\<lambda>r. \<not> D r) relaxedAll"
      unfolding rl list_all_Array_sort by (auto simp: list_all_iff DG)
    then show ?thesis by (rule list_all_take)
  qed
  have f23: "list_all (\<lambda>r. \<not> D r) fb" if "take limit ys = []"
  proof (cases "0 < limit")
    case False
    then have "fb = []"
      using computeCooccurrenceNameBasedFallback_ranked [of E pkg limit] by (simp add: fb_def)
    then show ?thesis by simp
  next
    case True
    have "seed = []" by (rule empty [OF that True])
    then have none: "{d \<in> set pkgDeps.
          normalizePackageName d \<in> normalizePackageName ` set (popularPackages E)} = {}"
      using sk by simp
    have "\<not> D r" if "r \<in> set fb" for r
    proof
      assume "D r"
      then obtain d where d: "d \<in> set pkgDeps" "normalizePackageName (name r) = normalizePackageName d"
        by (auto simp: D_def)
      have "name r \<in> set (popularPackages E)"
        using computeCooccurrenceNameBasedFallback_popular [of E pkg limit] that
        by (auto simp: fb_def)
      then have "normalizePackageName d \<in> normalizePackageName ` set (popularPackages E)"
        using d(2) by (metis imageI)
      then show False using none d(1) by blast
    qed
    then show ?thesis by (simp add: list_all_iff)
  qed
  have srtR: "sorted_wrt (\<lambda>a b. jaccard b \<le> jaccard a) (take limit relaxedAll)"
  proof (rule sorted_wrt_take, rule descJ_of_shared [OF _ relG t0])
    show "sorted_wrt (\<lambda>a b. cmpSharedThenJaccard a b \<le> 0) relaxedAll"
      unfolding rl by (rule sorted_cmpSharedThenJaccard)
  qed
  have noD: "sorted_wrt (\<lambda>a b. D b \<longrightarrow> D a) xs" if "list_all (\<lambda>r. \<not> D r) xs" for xs
    by (rule sorted_wrt_all) (use that in \<open>auto simp: list_all_iff\<close>)
  have mem: "mkItem d (toFixed6 (max (1 / of_nat (length pkgDeps)) DIRECT_DEPENDENCY_BOOST_SCORE)) 1
                   \<in> set res"
    if d: "d \<in> set pkgDeps"
      and pop: "normalizePackageName d \<in> normalizePackageName ` set (popularPackages E)"
      and crd: "card {d' \<in> set pkgDeps.
                    normalizePackageName d' \<in> normalizePackageName ` set (popularPackages E)} \<le> limit"
    for d
  proof -
    let ?it = "mkItem d (toFixed6 (max (1 / of_nat (length pkgDeps)) DIRECT_DEPENDENCY_BOOST_SCORE)) 1"
    have "d \<in> fst ` set seed" using sk d pop by simp
    then obtain v where v: "(d, v) \<in> set seed" by auto
    then have "v = (1, [d])" using sv by (auto simp: list_all_iff)
    then have inseed: "(d, (1, [d])) \<in> set seed" using v by simp
    have dN: "normalizePackageName d \<in> N" using d by (simp add: N_def)
    have "F (d, (1, [d])) = ?it" using dN by (simp add: F_def t_def)
    then have "?it \<in> set (map F seed)" using inseed by (metis image_eqI set_map)
    then have "?it \<in> set (filter D (filter Q (map F m)))" by (simp only: dirF)
    then have iny: "?it \<in> set ys" and Dit: "D ?it"
      unfolding ys by (simp_all add: set_Array_sort)
    have "?it \<in> set (take limit ys)"
      by (rule direct_first_take [OF dfirst _ iny Dit]) (simp add: lenD seedlen crd)
    moreover from this have "length (take limit ys) > 0" by (cases "take limit ys") auto
    ultimately show ?thesis by (simp only: res if_True)
  qed
  show ?thesis
  proof (cases "length (take limit ys) > 0")
    case True
    then have "res = take limit ys" by (simp only: res if_True)
    then show ?thesis using c1 c23 c4 mem by simp
  next
    case e1: False
    then have e1': "take limit ys = []" by (simp only: length_greater_0_conv not_not)
    show ?thesis
    proof (cases "length (take limit relaxedAll) > 0")
      case True
      then have r: "res = take limit relaxedAll" using e1 by (simp only: res if_True if_False)
      show ?thesis
        unfolding r using srtR noD [OF r23 [OF e1']] mem [unfolded r]
        by (simp add: sorted_wrt_filter)
    next
      case False
      then have r: "res = fb" using e1 by (simp only: res if_False)
      show ?thesis
        unfolding r
        using computeCooccurrenceNameBasedFallback_ranked [of E pkg limit]
          noD [OF f23 [OF e1']] mem [unfolded r]
        by (simp add: sorted_wrt_filter fb_def)
    qed
  qed
qed

lemma isDirectDependency_Some:
  "packageDeps E pkg = Some pkgDeps \<Longrightarrow>
   isDirectDependency E pkg = (\<lambda>r. normalizePackageName (name r) \<in> normalizePackageName ` set pkgDeps)"
  by (rule ext) (simp add: isDirectDependency_def set_new_Set)

lemma isDirectDependency_None:
  "packageDeps E pkg = None \<Longrightarrow> isDirectDependency E pkg = (\<lambda>r. False)"
  by (rule ext) (simp add: isDirectDependency_def)


lemma computeCooccurrence_forward:
  "getReverseDeps E pkg = [] \<Longrightarrow>
   computeCooccurrence E pkg limit opt = computeCooccurrenceFromForwardDeps E pkg limit"
  by (simp add: computeCooccurrence_def)





section \<open>Direct dependencies in the co-occurrence list\<close>

text \<open>
  Claim C8.  When the query has no reverse dependents, no item of the list returned by
  \<open>computeCooccurrence\<close> that is not a direct dependency of the query comes before one
  that is; and a direct dependency \<open>d\<close> of the query whose normalized name is that of a
  popular package is in the list, with one shared dependent and the boosted score,
  provided the limit is at least the number of such dependencies.  A dependency that is
  not in the list of popular packages is not added, and the list is cut at the limit.
\<close>

theorem direct_dependencies_first:
  assumes "getReverseDeps E pkg = []"
  shows "sorted_wrt (\<lambda>a b. isDirectDependency E pkg b \<longrightarrow> isDirectDependency E pkg a)
           (computeCooccurrence E pkg limit opt)
       \<and> (packageDeps E pkg = Some pkgDeps
          \<and> d \<in> set pkgDeps
          \<and> normalizePackageName d \<in> normalizePackageName ` set (popularPackages E)
          \<and> card {d' \<in> set pkgDeps.
                normalizePackageName d' \<in> normalizePackageName ` set (popularPackages E)} \<le> limit
          \<longrightarrow> mkItem d (toFixed6 (max (1 / of_nat (length pkgDeps)) DIRECT_DEPENDENCY_BOOST_SCORE)) 1
                \<in> set (computeCooccurrence E pkg limit opt))"
proof (cases "packageDeps E pkg")
  case None
  show ?thesis
    unfolding isDirectDependency_None [OF None]
    by (simp add: None sorted_wrt_all)
next
  case (Some deps)
  note facts = forward_cooccurrence_facts [OF Some, of limit]
  have ord: "sorted_wrt (\<lambda>a b. isDirectDependency E pkg b \<longrightarrow> isDirectDependency E pkg a)
           (computeCooccurrence E pkg limit opt)"
    unfolding computeCooccurrence_forward [OF assms] isDirectDependency_Some [OF Some]
    using facts by blast
  have mem: "mkItem d (toFixed6 (max (1 / of_nat (length pkgDeps)) DIRECT_DEPENDENCY_BOOST_SCORE)) 1
                \<in> set (computeCooccurrence E pkg limit opt)"
    if "packageDeps E pkg = Some pkgDeps" "d \<in> set pkgDeps"
      "normalizePackageName d \<in> normalizePackageName ` set (popularPackages E)"
      "card {d' \<in> set pkgDeps.
                normalizePackageName d' \<in> normalizePackageName ` set (popularPackages E)} \<le> limit"
  proof -
    have "pkgDeps = deps" using that(1) Some by simp
    then show ?thesis
      unfolding computeCooccurrence_forward [OF assms]
      using facts that(2,3,4) by blast
  qed
  show ?thesis using ord mem by blast
qed

theorem direct_dependencies_first_witness:
  "getReverseDeps forwardExampleEnv ''q'' = []
   \<and> packageDeps forwardExampleEnv ''q'' = Some [''numpy'', ''scipy'']
   \<and> computeCooccurrence forwardExampleEnv ''q'' 5 None
      = [mkItem ''numpy'' (1 / 2) 1, mkItem ''scipy'' (1 / 2) 1, mkItem ''foo'' 1 2]
   \<and> map (isDirectDependency forwardExampleEnv ''q'') (computeCooccurrence forwardExampleEnv ''q'' 5 None)
      = [True, True, False]
   \<and> sorted_wrt (\<lambda>a b. isDirectDependency forwardExampleEnv ''q'' b
                      \<longrightarrow> isDirectDependency forwardExampleEnv ''q'' a)
        (computeCooccurrence forwardExampleEnv ''q'' 5 None)
   \<and> mkItem ''scipy'' (toFixed6 (max (1 / of_nat (length [''numpy'', ''scipy''])) DIRECT_DEPENDENCY_BOOST_SCORE)) 1
        \<in> set (computeCooccurrence forwardExampleEnv ''q'' 5 None)"
proof -
  have a: "getReverseDeps forwardExampleEnv ''q'' = []" by code_simp
  have p: "packageDeps forwardExampleEnv ''q'' = Some [''numpy'', ''scipy'']" by code_simp
  have c: "computeCooccurrence forwardExampleEnv ''q'' 5 None
      = [mkItem ''numpy'' (1 / 2) 1, mkItem ''scipy'' (1 / 2) 1, mkItem ''foo'' 1 2]"
    by code_simp
  have m: "map (isDirectDependency forwardExampleEnv ''q'') (computeCooccurrence forwardExampleEnv ''q'' 5 None)
      = [True, True, False]"
    by code_simp
  have d: "''scipy'' \<in> set [''numpy'', ''scipy'']" by simp
  have n: "normalizePackageName ''scipy'' \<in> normalizePackageName ` set (popularPackages forwardExampleEnv)"
    by code_simp
  have k: "card {d' \<in> set [''numpy'', ''scipy''].
      normalizePackageName d' \<in> normalizePackageName ` set (popularPackages forwardExampleEnv)} \<le> 5"
    by code_simp
  note t = direct_dependencies_first [OF a, of 5 None "[''numpy'', ''scipy'']" "''scipy''"]
  have r1: "sorted_wrt (\<lambda>a b. isDirectDependency forwardExampleEnv ''q'' b
                      \<longrightarrow> isDirectDependency forwardExampleEnv ''q'' a)
        (computeCooccurrence forwardExampleEnv ''q'' 5 None)"
    using t by blast
  have r2: "mkItem ''scipy'' (toFixed6 (max (1 / of_nat (length [''numpy'', ''scipy''])) DIRECT_DEPENDENCY_BOOST_SCORE)) 1
        \<in> set (computeCooccurrence forwardExampleEnv ''q'' 5 None)"
    using t p d n k by blast
  show ?thesis by (intro conjI a p c m r1 r2)
qed

text \<open>The only dependency \<open>foo\<close> of the query is not a popular package, and the list is
  empty; and with limit one, the second of two popular dependencies is cut off.\<close>

theorem direct_dependencies_first_counterexample:
  "getReverseDeps unpopularDepEnv ''q'' = []
   \<and> packageDeps unpopularDepEnv ''q'' = Some [''foo'']
   \<and> computeCooccurrence unpopularDepEnv ''q'' 5 None = []
   \<and> getReverseDeps forwardExampleEnv ''q'' = []
   \<and> packageDeps forwardExampleEnv ''q'' = Some [''numpy'', ''scipy'']
   \<and> computeCooccurrence forwardExampleEnv ''q'' 1 None = [mkItem ''numpy'' (1 / 2) 1]"
  by code_simp

section \<open>Errors of the engine\<close>

lemma computeSimilarOnDemand_throws_iff:
  "computeSimilarOnDemand E pkg limit options = Inl e
     \<longleftrightarrow> getReverseDeps E pkg \<noteq> [] \<and> dependentsBitset E pkg = Inl e"
proof (cases "getReverseDeps E pkg = []")
  case True
  then show ?thesis by (simp add: computeSimilarOnDemand_def)
next
  case False
  then have len: "\<not> length (getReverseDeps E pkg) < 1" by (cases "getReverseDeps E pkg") auto
  show ?thesis
    using False len
    by (cases "dependentsBitset E pkg") (simp_all add: computeSimilarOnDemand_def Let_def)
qed

text \<open>
  Claim C1.  \<open>computeCooccurrence\<close> returns a list whatever the environment, and the route
  answers an empty package name with status 400.  \<open>computeSimilarOnDemand\<close>, however, awaits
  \<open>getDependentsBitset(pkg)\<close> for the query outside any \<open>try\<close> block: when the query has
  reverse dependents and the bitset index cannot be read, the call rejects, and the route
  answers the non-empty package name \<open>q\<close> with status 500.
\<close>

theorem unguarded_bitset_load_rejects:
  "getReverseDeps brokenBitsetEnv ''q'' = [''d1'', ''d2'']
   \<and> dependentsBitset brokenBitsetEnv ''q'' = Inl jsonSyntaxError
   \<and> computeSimilarOnDemand brokenBitsetEnv ''q'' 5 noOptions = Inl jsonSyntaxError
   \<and> GET brokenBitsetRoute ''q'' None False = JsonError 500 ''Internal server error''
   \<and> GET brokenBitsetRoute [] None False = JsonError 400 ''Invalid package name''"
  by code_simp

section \<open>Retries of \<open>fetchJsonWithCache\<close>\<close>

lemma attemptLoop_attempts:
  "attempt \<le> MAX_RETRY_ATTEMPTS
   \<Longrightarrow> fr_attempts (attemptLoop W url attempt lastError waited) \<le> MAX_RETRY_ATTEMPTS"
proof (induction W url attempt lastError waited rule: attemptLoop.induct)
  case (1 W url attempt lastError waited)
  show ?case
  proof (cases "attempt < MAX_RETRY_ATTEMPTS")
    case False
    then show ?thesis using 1(3) by (subst attemptLoop.simps) simp
  next
    case True
    then have le: "attempt + 1 \<le> MAX_RETRY_ATTEMPTS" by simp
    show ?thesis
    proof (cases "tryBlock W url (attempt + 1)")
      case (Returned json)
      then show ?thesis using True le by (subst attemptLoop.simps) simp
    next
      case (Thrown err)
      then show ?thesis using True le by (subst attemptLoop.simps) simp
    next
      case Continue
      then show ?thesis using True 1(1) [OF True Continue le] by (subst attemptLoop.simps) simp
    next
      case (Caught err)
      then show ?thesis using True 1(2) [OF True Caught le] by (subst attemptLoop.simps) simp
    qed
  qed
qed

lemma fetchJsonWithCache_attempts:
  "fr_attempts (fetchJsonWithCache W key url) \<le> MAX_RETRY_ATTEMPTS"
  using attemptLoop_attempts [of 0 W url None "[]"]
  by (simp add: fetchJsonWithCache_def split: option.splits)

lemma rejection_not_retried:
  assumes "lruGet W key = None" "fetchWithTimeout W url 1 = Rejected err" "\<not> shouldRetry err"
  shows "fetchJsonWithCache W key url
         = \<lparr> fr_result = Inl err, fr_attempts = 1, fr_delays = [] \<rparr>"
proof -
  have "tryBlock W url (0 + 1) = Thrown err"
    using assms by (simp add: tryBlock_def catchBlock_def)
  then show ?thesis
    using assms(1)
    by (simp add: fetchJsonWithCache_def attemptLoop.simps [of W url 0] MAX_RETRY_ATTEMPTS_def)
qed

text \<open>
  Claim C9.  A response with status 404 is not a transient failure, and the \<open>try\<close> block
  throws \<open>new Error("HTTP 404 for " + url)\<close> for it; but the \<open>catch\<close> block around it tests
  the text of that error, URL included, for the patterns of \<open>isRetryableError\<close>.  For the
  metadata URL of the package \<open>networkx\<close>, whose text contains \<open>network\<close>, the 404 is
  retried to the attempt cap, with the four backoff delays, before it propagates; for
  the package \<open>requests\<close> it propagates after the first attempt.
\<close>

theorem http_404_retried_when_url_matches:
  "fetchJsonWithCache notFoundWorld ''pypi:meta:networkx'' ''https://pypi.org/pypi/networkx/json''
     = \<lparr> fr_result = Inl (newError ''HTTP 404 for https://pypi.org/pypi/networkx/json''),
         fr_attempts = 5, fr_delays = [1250, 2250, 4250, 8250] \<rparr>
   \<and> isRetryableError (newError ''HTTP 404 for https://pypi.org/pypi/networkx/json'')
   \<and> fetchJsonWithCache notFoundWorld ''pypi:meta:requests'' ''https://pypi.org/pypi/requests/json''
     = \<lparr> fr_result = Inl (newError ''HTTP 404 for https://pypi.org/pypi/requests/json''),
         fr_attempts = 1, fr_delays = [] \<rparr>"
  by code_simp
end
